theory Spec2Isabelle
  imports Main "HOL-Library.Sublist"
begin

section \<open>The field-format engine (package pattern)\<close>

text \<open>
  A Go string is a sequence of bytes, modelled as \<^typ>\<open>string\<close>; \<open>len\<close> is
  \<^const>\<open>length\<close> and \<open>s[i:]\<close> is \<^const>\<open>drop\<close>.  The matchers walk their input with
  \<open>for _, r := range input\<close>, which decodes UTF-8.  Every character class of the package
  accepts ASCII code points only, a byte below 128 is its own code point, and a byte from
  128 on never starts the encoding of an ASCII code point.  Each loop below leaves at the
  first code point that is outside its class, and the offsets it computes count bytes, so
  the loops are written over the bytes of the input.

  A Go panic (calling a nil function value, indexing past the end) is the result
  \<open>Panic\<close>; a returned value is \<open>Return\<close>.
\<close>

datatype 'a result = Panic | Return 'a

type_synonym CharSet = "char \<Rightarrow> bool"

definition rn :: "char \<Rightarrow> nat" where
  "rn c = of_char c"

definition numbers :: CharSet where
  "numbers r \<longleftrightarrow> rn (CHR ''0'') \<le> rn r \<and> rn r \<le> rn (CHR ''9'')"

definition alphaLower :: CharSet where
  "alphaLower r \<longleftrightarrow> rn (CHR ''a'') \<le> rn r \<and> rn r \<le> rn (CHR ''z'')"

definition alphaUpper :: CharSet where
  "alphaUpper r \<longleftrightarrow> rn (CHR ''A'') \<le> rn r \<and> rn r \<le> rn (CHR ''Z'')"

definition alphaNumericUpper :: CharSet where
  "alphaNumericUpper r \<longleftrightarrow> numbers r \<or> alphaUpper r"

definition floats :: CharSet where
  "floats r \<longleftrightarrow> numbers r \<or> r = CHR '',''"

definition special :: CharSet where
  "special r \<longleftrightarrow> r = CHR ''/'' \<or> r = CHR ''-'' \<or> r = CHR ''?'' \<or> r = CHR '':''
     \<or> r = CHR ''('' \<or> r = CHR '')'' \<or> r = CHR ''.'' \<or> r = CHR '','' \<or> r = CHR 0x27
     \<or> r = CHR ''+'' \<or> r = CHR ''{'' \<or> r = CHR ''}'' \<or> r = CHR 0x0A \<or> r = CHR '' ''"

definition any :: CharSet where
  "any r \<longleftrightarrow> alphaNumericUpper r \<or> alphaLower r \<or> floats r \<or> special r"

text \<open>The table \<open>charSets\<close>; a key that is not in the table yields the nil function.\<close>

definition charSets :: "string \<Rightarrow> CharSet option" where
  "charSets k =
     (if k = ''n'' then Some numbers
      else if k = ''a'' then Some alphaUpper
      else if k = ''c'' then Some alphaNumericUpper
      else if k = ''x'' then Some any
      else if k = ''d'' then Some floats
      else None)"

text \<open>
  The error values of the package are formatted strings; the model keeps their kind and
  the values that are formatted into them.  \<open>OrFailed\<close> carries the two branch errors as
  they are at that point, either of which may be nil.
\<close>

datatype perr =
    LiteralExpected string
  | CountShort int string nat
  | LineErr int perr
  | LineIncomplete int
  | OrFailed "perr option" "perr option"
  | InputInvalid perr
  | IncompleteMatch

text \<open>
  The implementations of \<open>ValidatesPartially\<close>.  \<open>CharGroup\<close> holds \<open>charSetKey\<close>,
  \<open>CharSet\<close>, \<open>Count\<close> and \<open>CountStrict\<close>; \<open>LinePattern\<close> holds the two bounds that its
  \<open>InRange\<close> closure captured (\<open>line >= currLine && line < endLine\<close>) and the wrapped
  matcher.
\<close>

datatype matcher =
    Literal string
  | Optional matcher
  | CharGroup string "CharSet option" int bool
  | Pattern "matcher list"
  | LinePattern int int matcher
  | OrPattern matcher matcher

definition HasPrefix :: "string \<Rightarrow> string \<Rightarrow> bool" where
  "HasPrefix s pre \<longleftrightarrow> length s \<ge> length pre \<and> take (length pre) s = pre"

definition LiteralValidatePartial :: "string \<Rightarrow> string \<Rightarrow> string \<times> perr option" where
  "LiteralValidatePartial chars input =
     (if HasPrefix input chars then
        (if length input > length chars then (drop (length chars) input, None)
         else ([], None))
      else (input, Some (LiteralExpected chars)))"

text \<open>\<open>countAndStripFloats\<close>: the two labelled loops, then the function.\<close>

fun BeforeDecimalLoop :: "int \<Rightarrow> nat \<Rightarrow> nat \<Rightarrow> string \<Rightarrow> (nat \<times> nat) option" where
  "BeforeDecimalLoop cnt charCount countBeforeDecimal [] = Some (charCount, countBeforeDecimal)"
| "BeforeDecimalLoop cnt charCount countBeforeDecimal (r # rs) =
     (if int countBeforeDecimal = cnt then Some (charCount, countBeforeDecimal)
      else if r = CHR '','' then Some (charCount + 1, countBeforeDecimal)
      else if numbers r then BeforeDecimalLoop cnt (charCount + 1) (countBeforeDecimal + 1) rs
      else None)"

fun AfterDecimalLoop :: "int \<Rightarrow> nat \<Rightarrow> nat \<Rightarrow> nat \<Rightarrow> string \<Rightarrow> nat \<times> nat" where
  "AfterDecimalLoop cnt countBeforeDecimal charCount countAfterDecimal [] =
     (charCount, countAfterDecimal)"
| "AfterDecimalLoop cnt countBeforeDecimal charCount countAfterDecimal (r # rs) =
     (if int countBeforeDecimal + int countAfterDecimal = cnt then (charCount, countAfterDecimal)
      else if numbers r then
        AfterDecimalLoop cnt countBeforeDecimal (charCount + 1) (countAfterDecimal + 1) rs
      else (charCount + 1, countAfterDecimal))"

definition countAndStripFloats :: "int \<Rightarrow> string \<Rightarrow> nat \<times> string" where
  "countAndStripFloats cnt input =
     (case BeforeDecimalLoop cnt 0 0 input of
        None \<Rightarrow> (0, input)
      | Some (charCount, countBeforeDecimal) \<Rightarrow>
          (case AfterDecimalLoop cnt countBeforeDecimal charCount 0 (drop charCount input) of
             (charCount', countAfterDecimal) \<Rightarrow>
               if countAfterDecimal = 0 then (0, input)
               else (countBeforeDecimal + countAfterDecimal, drop charCount' input)))"

text \<open>
  \<open>countAndStripChars\<close>: the loop of the default branch calls \<open>cg.CharSet(r)\<close>, which
  panics when the function is nil.
\<close>

fun CharsLoop :: "CharSet option \<Rightarrow> int \<Rightarrow> nat \<Rightarrow> string \<Rightarrow> nat result" where
  "CharsLoop cs cnt count [] = Return count"
| "CharsLoop cs cnt count (r # rs) =
     (if int count = cnt then Return count
      else (case cs of
              None \<Rightarrow> Panic
            | Some f \<Rightarrow> if \<not> f r then Return count else CharsLoop cs cnt (count + 1) rs))"

definition countAndStripChars ::
  "string \<Rightarrow> CharSet option \<Rightarrow> int \<Rightarrow> string \<Rightarrow> (nat \<times> string) result" where
  "countAndStripChars key cs cnt input =
     (if key = ''d'' then Return (countAndStripFloats cnt input)
      else (case CharsLoop cs cnt 0 input of
              Panic \<Rightarrow> Panic
            | Return count \<Rightarrow> Return (count, drop count input)))"

definition CharGroupValidatePartial ::
  "string \<Rightarrow> CharSet option \<Rightarrow> int \<Rightarrow> bool \<Rightarrow> string \<Rightarrow> (string \<times> perr option) result" where
  "CharGroupValidatePartial key cs cnt strict input =
     (case countAndStripChars key cs cnt input of
        Panic \<Rightarrow> Panic
      | Return (count, newInput) \<Rightarrow>
          if int count < cnt \<and> strict then Return (newInput, Some (CountShort cnt key count))
          else Return (newInput, None))"

text \<open>\<open>strings.Split(input, "\n")\<close>.\<close>

fun SplitLines :: "string \<Rightarrow> string list" where
  "SplitLines [] = [[]]"
| "SplitLines (c # cs) =
     (if c = CHR 0x0A then [] # SplitLines cs
      else (case SplitLines cs of
              [] \<Rightarrow> [[c]]
            | line # lines \<Rightarrow> (c # line) # lines))"

text \<open>
  \<open>ValidatePartial\<close> of every matcher.  \<open>PatternLoop\<close> is the loop of
  \<open>Pattern.ValidatePartial\<close>; \<open>LineLoop\<close> is the loop of \<open>LinePattern.ValidatePartial\<close>
  over the remaining lines, with the variables \<open>input\<close> and \<open>currLine\<close> that it updates.
\<close>

fun ValidatePartial :: "matcher \<Rightarrow> string \<Rightarrow> int \<Rightarrow> (string \<times> perr option) result"
and PatternLoop :: "matcher list \<Rightarrow> string \<Rightarrow> int \<Rightarrow> (string \<times> perr option) result"
and LineLoop ::
  "int \<Rightarrow> int \<Rightarrow> matcher \<Rightarrow> string list \<Rightarrow> string \<Rightarrow> int \<Rightarrow> (string \<times> perr option) result"
where
  "ValidatePartial (Literal chars) input currLine = Return (LiteralValidatePartial chars input)"
| "ValidatePartial (Optional p) input currLine =
     (case ValidatePartial p input currLine of
        Panic \<Rightarrow> Panic
      | Return (rest, Some err) \<Rightarrow> Return (input, None)
      | Return (rest, None) \<Rightarrow> Return (rest, None))"
| "ValidatePartial (CharGroup key cs cnt strict) input currLine =
     CharGroupValidatePartial key cs cnt strict input"
| "ValidatePartial (Pattern p) input currLine = PatternLoop p input currLine"
| "ValidatePartial (LinePattern lo hi p) input currLine =
     LineLoop lo hi p (SplitLines input) input currLine"
| "ValidatePartial (OrPattern left right) input currLine =
     (case ValidatePartial left input currLine of
        Panic \<Rightarrow> Panic
      | Return (restLeft, errLeft) \<Rightarrow>
          if errLeft = None \<and> restLeft = [] then Return (restLeft, None)
          else (case ValidatePartial right input currLine of
                  Panic \<Rightarrow> Panic
                | Return (restRight, errRight) \<Rightarrow>
                    if errLeft = None \<and> errRight \<noteq> None then Return (restLeft, None)
                    else if errLeft \<noteq> None \<and> errRight = None then Return (restRight, None)
                    else if errLeft = None \<and> errRight = None
                            \<and> length restLeft < length restRight then Return (restLeft, None)
                    else if errLeft = None \<and> errRight = None
                            \<and> length restLeft > length restRight then Return (restRight, None)
                    else Return (input, Some (OrFailed errLeft errRight))))"
| "PatternLoop [] input currLine = Return (input, None)"
| "PatternLoop (v # p) input currLine =
     (case ValidatePartial v input currLine of
        Panic \<Rightarrow> Panic
      | Return (input', Some err) \<Rightarrow> Return (input', Some err)
      | Return (input', None) \<Rightarrow> PatternLoop p input' currLine)"
| "LineLoop lo hi p [] input currLine = Return (input, None)"
| "LineLoop lo hi p (line # lines) input currLine =
     (if \<not> (currLine \<ge> lo \<and> currLine < hi) then Return (input, None)
      else (case ValidatePartial p line currLine of
              Panic \<Rightarrow> Panic
            | Return (rest, Some err) \<Rightarrow> Return (input, Some (LineErr currLine err))
            | Return (rest, None) \<Rightarrow>
                if rest \<noteq> [] then Return (input, Some (LineIncomplete currLine))
                else LineLoop lo hi p lines
                       (if length input > length line + 1 then drop (length line + 1) input
                        else [])
                       (currLine + 1)))"

text \<open>\<open>Pattern.Validate\<close>: the loop over the matchers of the pattern, then the check
  that nothing of the input is left.\<close>

fun ValidateLoop :: "matcher list \<Rightarrow> string \<Rightarrow> perr option result" where
  "ValidateLoop [] input = Return (if input \<noteq> [] then Some IncompleteMatch else None)"
| "ValidateLoop (pv # p) input =
     (case ValidatePartial pv input 1 of
        Panic \<Rightarrow> Panic
      | Return (input', Some err) \<Rightarrow> Return (Some (InputInvalid err))
      | Return (input', None) \<Rightarrow> ValidateLoop p input')"

definition Validate :: "matcher list \<Rightarrow> string \<Rightarrow> perr option result" where
  "Validate p input = ValidateLoop p input"

text \<open>
  The syntax tree of package \<open>ast\<close> and the processor that turns it into matchers.
  \<open>ast.Pattern\<close> is the list of its nodes.  The processor starts at line 1; the
  addition \<open>currLine + lce.LineCount\<close> is on unbounded integers here.
\<close>

datatype node =
    AstPattern "node list"
  | AstLiteral string
  | AstOptional node
  | AstCharGroup int bool string
  | AstLineCountExpression int node
  | AstOrExpression node node

fun astNodeToPartialValidator :: "node \<Rightarrow> int \<Rightarrow> matcher" where
  "astNodeToPartialValidator (AstLiteral v) currLine = Literal v"
| "astNodeToPartialValidator (AstOptional n) currLine =
     Optional (astNodeToPartialValidator n currLine)"
| "astNodeToPartialValidator (AstCharGroup cnt strict key) currLine =
     CharGroup key (charSets key) cnt strict"
| "astNodeToPartialValidator (AstLineCountExpression lineCount n) currLine =
     LinePattern currLine (currLine + lineCount)
       (astNodeToPartialValidator n (currLine + lineCount))"
| "astNodeToPartialValidator (AstOrExpression l r) currLine =
     OrPattern (astNodeToPartialValidator l currLine) (astNodeToPartialValidator r currLine)"
| "astNodeToPartialValidator (AstPattern ns) currLine =
     Pattern (map (\<lambda>n. astNodeToPartialValidator n currLine) ns)"

definition process :: "node list \<Rightarrow> matcher list" where
  "process nodes = map (\<lambda>n. astNodeToPartialValidator n 1) nodes"

text \<open>A run of decimal digits.\<close>

definition digits :: "string \<Rightarrow> bool" where
  "digits ds \<longleftrightarrow> list_all numbers ds"


section \<open>The header decoders (package mt)\<close>

text \<open>
  The block content handed to a decoder is a Go string, so lengths and slices count
  bytes.  Every slice below is taken after a check of the length that keeps it in range.
  \<open>slice s i j\<close> is \<open>s[i:j]\<close>.
\<close>

definition slice :: "string \<Rightarrow> nat \<Rightarrow> nat \<Rightarrow> string" where
  "slice s i j = take (j - i) (drop i s)"

datatype ApplicationID = ApplicationIDFinancial | ApplicationIDGeneral | ApplicationIDLogin

datatype ServiceID = ServiceIDFINGPA | ServiceIDACKNACK

datatype Priority = PriorityNormal | PrioritySystem | PriorityUrgent

datatype DeliveryMonitor =
  DeliveryMonitorNonDelivery | DeliveryMonitorDelivery | DeliveryMonitorBoth

text \<open>
  The errors of the decoders, by the format string that builds them; a wrapping error
  (\<open>%w\<close>) carries the error it wraps.
\<close>

datatype herr =
    InvalidBasicHeaderLength nat
  | UnknownApplicationID string
  | UnknownServiceID string
  | InvalidAppHeaderInputLength nat
  | UnknownMessagePriority string
  | InvalidDeliveryMonitor string
  | InvalidPriorityOrDeliveryMonitor string
  | InvalidObsolescencePeriod int
  | CouldNotSetPriorityOrDeliveryMonitor herr
  | CouldNotSetPriority herr
  | CouldNotSetDeliveryMonitor herr
  | CouldNotSetObsolescencePeriod herr

record BasicHeader =
  bh_Raw :: string
  bh_AppID :: ApplicationID
  bh_ServiceID :: ServiceID
  bh_SessionNumber :: string
  bh_SequenceNumber :: string
  bh_LogicalTerminalAddress :: string

text \<open>
  \<open>basicHeaderBlockToBasicHeader\<close>, on the content of the block.  It returns the header
  built so far together with the error; the fields it has not reached keep their zero
  values.
\<close>

definition basicHeaderBlockToBasicHeader :: "string \<Rightarrow> BasicHeader \<times> herr option" where
  "basicHeaderBlockToBasicHeader content =
     (let msgBscHeader = \<lparr> bh_Raw = ''{1:'' @ content @ ''}'',
                            bh_AppID = ApplicationIDFinancial,
                            bh_ServiceID = ServiceIDFINGPA,
                            bh_SessionNumber = [],
                            bh_SequenceNumber = [],
                            bh_LogicalTerminalAddress = [] \<rparr>
      in if length content \<noteq> 25 then
           (msgBscHeader, Some (InvalidBasicHeaderLength (length content)))
         else
           (case (if slice content 0 1 = ''F'' then Some ApplicationIDFinancial
                  else if slice content 0 1 = ''A'' then Some ApplicationIDGeneral
                  else if slice content 0 1 = ''L'' then Some ApplicationIDLogin
                  else None) of
              None \<Rightarrow> (msgBscHeader, Some (UnknownApplicationID (slice content 0 1)))
            | Some appID \<Rightarrow>
               (let msgBscHeader = msgBscHeader \<lparr> bh_AppID := appID \<rparr>
                in (case (if slice content 1 3 = ''01'' then Some ServiceIDFINGPA
                          else if slice content 1 3 = ''21'' then Some ServiceIDACKNACK
                          else None) of
                      None \<Rightarrow> (msgBscHeader, Some (UnknownServiceID (slice content 1 3)))
                    | Some serviceID \<Rightarrow>
                        (msgBscHeader \<lparr> bh_ServiceID := serviceID,
                                        bh_LogicalTerminalAddress := slice content 3 15,
                                        bh_SessionNumber := slice content 15 19,
                                        bh_SequenceNumber := drop 19 content \<rparr>,
                         None)))))"

text \<open>
  \<open>strconv.Atoi\<close> for a 64-bit \<open>int\<close>: an optional sign, then decimal digits only.
  The result is the value and whether the error is nil.  A syntax error yields 0; a value
  out of range yields the nearest bound, with an error.
\<close>

fun digitsValue :: "string \<Rightarrow> nat \<Rightarrow> nat option" where
  "digitsValue [] n = Some n"
| "digitsValue (ch # s) n =
     (if numbers ch then digitsValue s (n * 10 + (rn ch - rn (CHR ''0''))) else None)"

definition Atoi :: "string \<Rightarrow> int \<times> bool" where
  "Atoi s =
     (let neg = (s \<noteq> [] \<and> hd s = CHR ''-'');
          body = (if s \<noteq> [] \<and> (hd s = CHR ''-'' \<or> hd s = CHR ''+'') then tl s else s)
      in if body = [] then (0, False)
         else (case digitsValue body 0 of
                 None \<Rightarrow> (0, False)
               | Some v \<Rightarrow>
                   if \<not> neg \<and> v \<ge> 2 ^ 63 then (2 ^ 63 - 1, False)
                   else if neg \<and> v > 2 ^ 63 then (- (2 ^ 63), False)
                   else (if neg then - int v else int v, True)))"

record AppHeaderInput =
  ahi_Set :: bool
  ahi_Raw :: string
  ahi_ObsolescencePeriodInMinutes :: int
  ahi_MessageType :: string
  ahi_ReceiverAddress :: string
  ahi_MessagePriority :: Priority
  ahi_DeliveryMonitor :: DeliveryMonitor

text \<open>
  The closures of \<open>appHeaderBlockToAppHeaderInput\<close>; each takes the header it updates
  and returns it with the error.
\<close>

definition obsolescenceMinutesPerFactor :: int where
  "obsolescenceMinutesPerFactor = 5"

definition setPriority :: "AppHeaderInput \<Rightarrow> string \<Rightarrow> AppHeaderInput \<times> herr option" where
  "setPriority h char =
     (if char = ''S'' then (h \<lparr> ahi_MessagePriority := PrioritySystem \<rparr>, None)
      else if char = ''N'' then (h \<lparr> ahi_MessagePriority := PriorityNormal \<rparr>, None)
      else if char = ''U'' then (h \<lparr> ahi_MessagePriority := PriorityUrgent \<rparr>, None)
      else (h, Some (UnknownMessagePriority char)))"

definition setDeliveryMonitor :: "AppHeaderInput \<Rightarrow> string \<Rightarrow> AppHeaderInput \<times> herr option" where
  "setDeliveryMonitor h char =
     (if char = ''1'' then (h \<lparr> ahi_DeliveryMonitor := DeliveryMonitorNonDelivery \<rparr>, None)
      else if char = ''2'' then (h \<lparr> ahi_DeliveryMonitor := DeliveryMonitorDelivery \<rparr>, None)
      else if char = ''3'' then (h \<lparr> ahi_DeliveryMonitor := DeliveryMonitorBoth \<rparr>, None)
      else (h, Some (InvalidDeliveryMonitor char)))"

definition setPriorityOrDeliveryMonitor ::
  "AppHeaderInput \<Rightarrow> string \<Rightarrow> AppHeaderInput \<times> herr option" where
  "setPriorityOrDeliveryMonitor h char =
     (if char = ''S'' \<or> char = ''N'' \<or> char = ''U'' then setPriority h char
      else if char = ''1'' \<or> char = ''2'' \<or> char = ''3'' then setDeliveryMonitor h char
      else (h, Some (InvalidPriorityOrDeliveryMonitor char)))"

text \<open>
  \<open>setObsolescencePeriod\<close>: the regular expression \<open>^0+\<close> removes the leading zeros,
  \<open>Atoi\<close> reads what is left.
\<close>

definition setObsolescencePeriod :: "AppHeaderInput \<Rightarrow> string \<Rightarrow> AppHeaderInput \<times> herr option" where
  "setObsolescencePeriod h chars =
     (let factorString = dropWhile (\<lambda>c. c = CHR ''0'') chars
      in (case Atoi factorString of
            (factor, False) \<Rightarrow> (h, Some (InvalidObsolescencePeriod factor))
          | (factor, True) \<Rightarrow>
              (h \<lparr> ahi_ObsolescencePeriodInMinutes := factor * obsolescenceMinutesPerFactor \<rparr>,
               None)))"

definition appHeaderBlockToAppHeaderInput :: "string \<Rightarrow> AppHeaderInput \<times> herr option" where
  "appHeaderBlockToAppHeaderInput content =
     (let h0 = \<lparr> ahi_Set = False,
                  ahi_Raw = ''{2:'' @ content @ ''}'',
                  ahi_ObsolescencePeriodInMinutes = 0,
                  ahi_MessageType = [],
                  ahi_ReceiverAddress = [],
                  ahi_MessagePriority = PriorityNormal,
                  ahi_DeliveryMonitor = DeliveryMonitorNonDelivery \<rparr>
      in if length content < 16 then (h0, Some (InvalidAppHeaderInputLength (length content)))
         else
           (let h = h0 \<lparr> ahi_Set := True,
                         ahi_MessageType := slice content 1 4,
                         ahi_ReceiverAddress := slice content 4 16 \<rparr>
            in if length content = 16 then (h, None)
               else if length content = 17 then
                 (case setPriorityOrDeliveryMonitor h (slice content 16 17) of
                    (h, Some err) \<Rightarrow> (h, Some (CouldNotSetPriorityOrDeliveryMonitor err))
                  | (h, None) \<Rightarrow> (h, None))
               else if length content = 18 then
                 (case setPriority h (slice content 16 17) of
                    (h, Some err) \<Rightarrow> (h, Some (CouldNotSetPriority err))
                  | (h, None) \<Rightarrow>
                      (case setDeliveryMonitor h (slice content 17 18) of
                         (h, Some err) \<Rightarrow> (h, Some (CouldNotSetDeliveryMonitor err))
                       | (h, None) \<Rightarrow> (h, None)))
               else if length content = 19 then
                 (case setObsolescencePeriod h (drop 16 content) of
                    (h, Some err) \<Rightarrow> (h, Some (CouldNotSetObsolescencePeriod err))
                  | (h, None) \<Rightarrow> (h, None))
               else if length content = 20 then
                 (case setPriorityOrDeliveryMonitor h (slice content 16 17) of
                    (h, Some err) \<Rightarrow> (h, Some (CouldNotSetPriorityOrDeliveryMonitor err))
                  | (h, None) \<Rightarrow>
                      (case setObsolescencePeriod h (drop 17 content) of
                         (h, Some err) \<Rightarrow> (h, Some (CouldNotSetObsolescencePeriod err))
                       | (h, None) \<Rightarrow> (h, None)))
               else if length content = 21 then
                 (case setPriority h (slice content 16 17) of
                    (h, Some err) \<Rightarrow> (h, Some (CouldNotSetPriority err))
                  | (h, None) \<Rightarrow>
                      (case setDeliveryMonitor h (slice content 17 18) of
                         (h, Some err) \<Rightarrow> (h, Some (CouldNotSetDeliveryMonitor err))
                       | (h, None) \<Rightarrow>
                           (case setObsolescencePeriod h (drop 18 content) of
                              (h, Some err) \<Rightarrow> (h, Some (CouldNotSetObsolescencePeriod err))
                            | (h, None) \<Rightarrow> (h, None))))
               else (h, Some (InvalidAppHeaderInputLength (length content)))))"

text \<open>The value of a run of decimal digits, most significant digit first.\<close>

definition decimal :: "string \<Rightarrow> nat" where
  "decimal ds = foldl (\<lambda>n ch. n * 10 + (rn ch - rn (CHR ''0''))) 0 ds"

text \<open>
  The contents of an input application header that carry an obsolescence period and
  whose characters before it are accepted: length 19 has none, length 20 has a priority
  or a delivery monitor at \<open>[16]\<close>, length 21 has a priority at \<open>[16]\<close> and a delivery
  monitor at \<open>[17]\<close>.
\<close>

definition validTailPrefix :: "string \<Rightarrow> bool" where
  "validTailPrefix content \<longleftrightarrow>
     length content = 19
     \<or> length content = 20 \<and> slice content 16 17 \<in> {''S'', ''N'', ''U'', ''1'', ''2'', ''3''}
     \<or> length content = 21 \<and> slice content 16 17 \<in> {''S'', ''N'', ''U''}
          \<and> slice content 17 18 \<in> {''1'', ''2'', ''3''}"

text \<open>
  The tails that \<open>setObsolescencePeriod\<close> reads as a signed number: what is left of the
  tail once its leading zeros are removed is a sign followed by at least one decimal
  digit.  The number is the value of these digits, negated after a minus sign.
\<close>

definition signedTail :: "string \<Rightarrow> bool" where
  "signedTail t \<longleftrightarrow>
     (case dropWhile (\<lambda>c. c = CHR ''0'') t of
        [] \<Rightarrow> False
      | sg # ds \<Rightarrow> (sg = CHR ''+'' \<or> sg = CHR ''-'') \<and> ds \<noteq> [] \<and> digits ds)"

definition signedValue :: "string \<Rightarrow> int" where
  "signedValue t =
     (case dropWhile (\<lambda>c. c = CHR ''0'') t of
        [] \<Rightarrow> 0
      | sg # ds \<Rightarrow> if sg = CHR ''-'' then - int (decimal ds) else int (decimal ds))"

section \<open>Statement lines (package mt)\<close>

text \<open>
  \<open>time.Parse\<close> for the two layouts that a statement line uses, on an input of exactly
  the layout's length (the callers slice 6 and 4 bytes).  With layout \<open>060102\<close> the year
  is read by the package's \<open>atoi\<close> from the first two bytes, which accepts two digits or
  a sign and a digit, and is moved into 1969..2068; month and day are two digits each, the
  month in 1..12 and the day in 1..\<open>daysIn\<close>.  With layout \<open>0102\<close> the year is 0.  The
  result is the date as year, month and day, or \<open>None\<close> for a parse error.
\<close>

definition isLeap :: "int \<Rightarrow> bool" where
  "isLeap year \<longleftrightarrow> year mod 4 = 0 \<and> (year mod 100 \<noteq> 0 \<or> year mod 400 = 0)"

definition daysIn :: "nat \<Rightarrow> int \<Rightarrow> nat" where
  "daysIn m year =
     (if m = 2 then (if isLeap year then 29 else 28)
      else if m = 4 \<or> m = 6 \<or> m = 9 \<or> m = 11 then 30
      else 31)"

definition digitVal :: "char \<Rightarrow> nat" where
  "digitVal c = rn c - rn (CHR ''0'')"

definition getnum2 :: "string \<Rightarrow> nat option" where
  "getnum2 s =
     (case s of
        a # b # _ \<Rightarrow> if numbers a \<and> numbers b then Some (digitVal a * 10 + digitVal b) else None
      | _ \<Rightarrow> None)"

definition parseYear2 :: "string \<Rightarrow> int option" where
  "parseYear2 p =
     (case p of
        [a, b] \<Rightarrow>
          (let y = (if numbers a \<and> numbers b then Some (int (digitVal a * 10 + digitVal b))
                    else if a = CHR ''+'' \<and> numbers b then Some (int (digitVal b))
                    else if a = CHR ''-'' \<and> numbers b then Some (- int (digitVal b))
                    else None)
           in (case y of
                 None \<Rightarrow> None
               | Some year \<Rightarrow> Some (if year \<ge> 69 then year + 1900 else year + 2000)))
      | _ \<Rightarrow> None)"

definition parseMonthDay :: "int \<Rightarrow> string \<Rightarrow> (int \<times> nat \<times> nat) option" where
  "parseMonthDay year s =
     (if length s \<noteq> 4 then None
      else (case getnum2 s of
              None \<Rightarrow> None
            | Some month \<Rightarrow>
                if month = 0 \<or> 12 < month then None
                else (case getnum2 (drop 2 s) of
                        None \<Rightarrow> None
                      | Some day \<Rightarrow>
                          if day < 1 \<or> day > daysIn month year then None
                          else Some (year, month, day))))"

definition timeParseDate :: "string \<Rightarrow> (int \<times> nat \<times> nat) option" where
  "timeParseDate s =
     (if length s \<noteq> 6 then None
      else (case parseYear2 (take 2 s) of
              None \<Rightarrow> None
            | Some year \<Rightarrow> parseMonthDay year (drop 2 s)))"

definition timeParseMonth :: "string \<Rightarrow> (int \<times> nat \<times> nat) option" where
  "timeParseMonth s = parseMonthDay 0 s"

record Date =
  date_Set :: bool
  date_Raw :: string
  date_Time :: "int \<times> nat \<times> nat"

record Month =
  month_Set :: bool
  month_Raw :: string
  month_Time :: "int \<times> nat \<times> nat"

datatype FundsCode =
  FundsCodeCredit | FundsCodeCreditReversal | FundsCodeDebit | FundsCodeDebitReversal

text \<open>
  \<open>sl_Amount\<close> holds the text that \<open>UnmarshalMT\<close> hands to \<open>strconv.ParseFloat\<close> (the
  amount with every comma replaced by a dot) in place of the floating-point number; the
  error of \<open>ParseFloat\<close> is ignored by the source and nothing else depends on the number.
\<close>

record StatementLine =
  sl_Set :: bool
  sl_Raw :: string
  sl_Date :: Date
  sl_EntryDate :: Month
  sl_FundsCode :: FundsCode
  sl_Amount :: string
  sl_SwiftCode :: string
  sl_AccountOwnerReference :: string
  sl_BankReference :: string
  sl_Description :: string

datatype slerr = InvalidDate | InvalidEntryDate | InvalidOrMissingFundsCode

text \<open>
  The amount loop \<open>for unicode.IsDigit(rune(line1[n])) || line1[n] == ',' { n++ }\<close>
  indexes the line before any check of its length, so it panics when it reaches the end.
  \<open>unicode.IsDigit\<close> of a single byte is true for the ASCII digits only.
\<close>

fun AmountLoop :: "string \<Rightarrow> nat \<Rightarrow> nat result" where
  "AmountLoop [] amountNrOfDigits = Panic"
| "AmountLoop (c # cs) amountNrOfDigits =
     (if numbers c \<or> c = CHR '','' then AmountLoop cs (amountNrOfDigits + 1)
      else Return amountNrOfDigits)"

text \<open>\<open>strings.Split(line1, "//")\<close> and \<open>strings.ReplaceAll(amountStr, ",", ".")\<close>.\<close>

fun SplitSlashes :: "string \<Rightarrow> string list" where
  "SplitSlashes (a # b # rest) =
     (if a = CHR ''/'' \<and> b = CHR ''/'' then [] # SplitSlashes rest
      else (case SplitSlashes (b # rest) of
              [] \<Rightarrow> [[a]]
            | part # parts \<Rightarrow> (a # part) # parts))"
| "SplitSlashes s = [s]"

definition commasToDots :: "string \<Rightarrow> string" where
  "commasToDots s = map (\<lambda>c. if c = CHR '','' then CHR ''.'' else c) s"

text \<open>
  \<open>StatementLine.UnmarshalMT\<close>.  The method updates its receiver as it goes, so the model
  takes the statement line and returns it with the error.  Each slice \<open>line1[0:n]\<close> that
  the source takes without a check of the length panics on a shorter line.
\<close>

definition UnmarshalMT_rest ::
  "StatementLine \<Rightarrow> string \<Rightarrow> string list \<Rightarrow> string \<Rightarrow> (StatementLine \<times> slerr option) result" where
  "UnmarshalMT_rest sl input lines line1 =
     (case AmountLoop line1 0 of
        Panic \<Rightarrow> Panic
      | Return amountNrOfDigits \<Rightarrow>
          (let sl = sl \<lparr> sl_Amount := commasToDots (take amountNrOfDigits line1) \<rparr>;
               line1 = drop amountNrOfDigits line1
           in if length line1 < 4 then Panic
              else
                (let sl = sl \<lparr> sl_SwiftCode := take 4 line1 \<rparr>;
                     line1 = drop 4 line1;
                     split = SplitSlashes line1;
                     sl = (if length split = 2
                           then sl \<lparr> sl_AccountOwnerReference := split ! 0,
                                     sl_BankReference := ''//'' @ split ! 1 \<rparr>
                           else sl \<lparr> sl_AccountOwnerReference := line1 \<rparr>);
                     sl = (if length lines > 1 then sl \<lparr> sl_Description := lines ! 1 \<rparr> else sl)
                 in Return (sl \<lparr> sl_Set := True, sl_Raw := input \<rparr>, None))))"

definition UnmarshalMT_fundsCode ::
  "StatementLine \<Rightarrow> string \<Rightarrow> string list \<Rightarrow> string \<Rightarrow> (StatementLine \<times> slerr option) result" where
  "UnmarshalMT_fundsCode sl input lines line1 =
     (if HasPrefix line1 ''RC'' then
        UnmarshalMT_rest (sl \<lparr> sl_FundsCode := FundsCodeCreditReversal \<rparr>) input lines (drop 2 line1)
      else if HasPrefix line1 ''RD'' then
        UnmarshalMT_rest (sl \<lparr> sl_FundsCode := FundsCodeDebitReversal \<rparr>) input lines (drop 2 line1)
      else if HasPrefix line1 ''C'' then
        UnmarshalMT_rest (sl \<lparr> sl_FundsCode := FundsCodeCredit \<rparr>) input lines (drop 1 line1)
      else if HasPrefix line1 ''D'' then
        UnmarshalMT_rest (sl \<lparr> sl_FundsCode := FundsCodeDebit \<rparr>) input lines (drop 1 line1)
      else Return (sl, Some InvalidOrMissingFundsCode))"

definition UnmarshalMT :: "StatementLine \<Rightarrow> string \<Rightarrow> (StatementLine \<times> slerr option) result" where
  "UnmarshalMT sl input =
     (let lines = SplitLines input;
          line1 = lines ! 0
      in if length line1 < 6 then Panic
         else
           (case timeParseDate (take 6 line1) of
              None \<Rightarrow> Return (sl, Some InvalidDate)
            | Some t \<Rightarrow>
                (let sl = sl \<lparr> sl_Date := \<lparr> date_Set = True, date_Raw = take 6 line1, date_Time = t \<rparr> \<rparr>;
                     line1 = drop 6 line1;
                     hasEntryDate = (\<not> HasPrefix line1 ''C'' \<and> \<not> HasPrefix line1 ''D'')
                 in if hasEntryDate then
                      (if length line1 < 4 then Panic
                       else
                         (case timeParseMonth (take 4 line1) of
                            None \<Rightarrow> Return (sl, Some InvalidEntryDate)
                          | Some m \<Rightarrow>
                              UnmarshalMT_fundsCode
                                (sl \<lparr> sl_EntryDate :=
                                        \<lparr> month_Set = True, month_Raw = take 4 line1, month_Time = m \<rparr> \<rparr>)
                                input lines (drop 4 line1)))
                    else UnmarshalMT_fundsCode sl input lines line1)))"

text \<open>The zero value of a statement line, as \<open>var statementLine mt.StatementLine\<close>.\<close>

definition zeroStatementLine :: StatementLine where
  "zeroStatementLine =
     \<lparr> sl_Set = False, sl_Raw = [],
       sl_Date = \<lparr> date_Set = False, date_Raw = [], date_Time = (1, 1, 1) \<rparr>,
       sl_EntryDate = \<lparr> month_Set = False, month_Raw = [], month_Time = (1, 1, 1) \<rparr>,
       sl_FundsCode = FundsCodeCredit, sl_Amount = [], sl_SwiftCode = [],
       sl_AccountOwnerReference = [], sl_BankReference = [], sl_Description = [] \<rparr>"

text \<open>The characters that the amount loop steps over.\<close>

definition amountChars :: "string \<Rightarrow> bool" where
  "amountChars s \<longleftrightarrow> list_all (\<lambda>c. numbers c \<or> c = CHR '','') s"

section \<open>The block parser (package message)\<close>

text \<open>
  \<open>strings.TrimSpace\<close> removes the leading and the trailing white space of a string,
  code point by code point, for the code points of \<open>unicode.IsSpace\<close>: tab, line feed,
  vertical tab, form feed, carriage return, space, U+0085, U+00A0, U+1680, U+2000 to
  U+200A, U+2028, U+2029, U+202F, U+205F and U+3000.  On the bytes of the string these
  are the six ASCII bytes and the two- and three-byte encodings of the others; an
  encoding is never a proper part of another code point's encoding at the start or at the
  end of a string, so the model strips these byte sequences.  \<open>spaceWidth s\<close> is the
  number of bytes of the white-space code point that starts \<open>s\<close> (0 when there is none),
  \<open>spaceWidthRev r\<close> the same for the code point that ends a string whose reversal is
  \<open>r\<close>.
\<close>

definition asciiSpace :: "char \<Rightarrow> bool" where
  "asciiSpace c \<longleftrightarrow> c = CHR 0x09 \<or> c = CHR 0x0A \<or> c = CHR 0x0B \<or> c = CHR 0x0C
     \<or> c = CHR 0x0D \<or> c = CHR 0x20"

definition space3 :: "char \<Rightarrow> char \<Rightarrow> char \<Rightarrow> bool" where
  "space3 a b c \<longleftrightarrow>
     a = CHR 0xE1 \<and> b = CHR 0x9A \<and> c = CHR 0x80
     \<or> a = CHR 0xE2 \<and> b = CHR 0x80
          \<and> (rn (CHR 0x80) \<le> rn c \<and> rn c \<le> rn (CHR 0x8A)
               \<or> c = CHR 0xA8 \<or> c = CHR 0xA9 \<or> c = CHR 0xAF)
     \<or> a = CHR 0xE2 \<and> b = CHR 0x81 \<and> c = CHR 0x9F
     \<or> a = CHR 0xE3 \<and> b = CHR 0x80 \<and> c = CHR 0x80"

definition space2 :: "char \<Rightarrow> char \<Rightarrow> bool" where
  "space2 a b \<longleftrightarrow> a = CHR 0xC2 \<and> (b = CHR 0x85 \<or> b = CHR 0xA0)"

fun spaceWidth :: "string \<Rightarrow> nat" where
  "spaceWidth [] = 0"
| "spaceWidth [a] = (if asciiSpace a then 1 else 0)"
| "spaceWidth [a, b] = (if asciiSpace a then 1 else if space2 a b then 2 else 0)"
| "spaceWidth (a # b # c # s) =
     (if asciiSpace a then 1 else if space2 a b then 2 else if space3 a b c then 3 else 0)"

fun spaceWidthRev :: "string \<Rightarrow> nat" where
  "spaceWidthRev [] = 0"
| "spaceWidthRev [c] = (if asciiSpace c then 1 else 0)"
| "spaceWidthRev [c, b] = (if asciiSpace c then 1 else if space2 b c then 2 else 0)"
| "spaceWidthRev (c # b # a # s) =
     (if asciiSpace c then 1 else if space2 b c then 2 else if space3 a b c then 3 else 0)"

function TrimLeft :: "string \<Rightarrow> string" where
  "TrimLeft s = (if spaceWidth s = 0 then s else TrimLeft (drop (spaceWidth s) s))"
  by pat_completeness auto
termination
proof (relation "measure length")
  show "wf (measure length)" by simp
next
  fix s :: string
  assume w: "spaceWidth s \<noteq> 0"
  then have "s \<noteq> []" by (cases s) auto
  with w show "(drop (spaceWidth s) s, s) \<in> measure length" by simp
qed

function TrimRightRev :: "string \<Rightarrow> string" where
  "TrimRightRev r = (if spaceWidthRev r = 0 then r else TrimRightRev (drop (spaceWidthRev r) r))"
  by pat_completeness auto
termination
proof (relation "measure length")
  show "wf (measure length)" by simp
next
  fix r :: string
  assume w: "spaceWidthRev r \<noteq> 0"
  then have "r \<noteq> []" by (cases r) auto
  with w show "(drop (spaceWidthRev r) r, r) \<in> measure length" by simp
qed

declare TrimLeft.simps [simp del] TrimRightRev.simps [simp del]

definition TrimSpace :: "string \<Rightarrow> string" where
  "TrimSpace s = rev (TrimRightRev (rev (TrimLeft s)))"

text \<open>The items that the lexer sends to the parser.\<close>

datatype itemType =
    itemError | itemEOF | itemIgnore
  | itemBlockLeftMeta | itemBlockLabelMeta | itemBlockLabel | itemBlockContent | itemBlockRightMeta
  | itemSubBlockLeftMeta | itemSubBlockLabelMeta | itemSubBlockLabel | itemSubBlockContent
  | itemSubBlockRightMeta
  | itemTagLeftMeta | itemTagContent | itemTagRightMeta | itemFieldContent

record item =
  it_typ :: itemType
  it_val :: string
  it_line :: int

text \<open>
  A Go map is a reference: copying a \<open>Block\<close> copies the reference to its \<open>Fields\<close>, not
  the map.  The maps live in a store from addresses to maps; \<open>None\<close> is the nil map of a
  zero \<open>Block\<close>.  A map \<open>map[string][]string\<close> is a partial function from tags to lists.
\<close>

type_synonym fields = "string \<Rightarrow> string list option"

record SubBlock =
  sb_Label :: string
  sb_Content :: string

record Block =
  b_Label :: string
  b_Content :: string
  b_Fields :: "nat option"
  b_Blocks :: "SubBlock list"

record Message =
  m_Line :: int
  m_Raw :: string
  m_BasicHeader :: Block
  m_AppHeader :: Block
  m_UsrHeader :: Block
  m_Body :: "nat option"
  m_Trailers :: Block

text \<open>An error of the parser: \<open>fmt.Errorf(item.val)\<close> with the line.\<close>

record Error =
  e_Line :: int
  e_Err :: string

definition blockLabelBasicHeader :: string where "blockLabelBasicHeader = ''1''"
definition blockLabelAppHeader :: string where "blockLabelAppHeader = ''2''"
definition blockLabelUsrHeader :: string where "blockLabelUsrHeader = ''3''"
definition blockLabelBody :: string where "blockLabelBody = ''4''"
definition blockLabelTrailers :: string where "blockLabelTrailers = ''5''"

definition zeroBlock :: Block where
  "zeroBlock = \<lparr> b_Label = [], b_Content = [], b_Fields = None, b_Blocks = [] \<rparr>"

definition rawBlock :: "string \<Rightarrow> string \<Rightarrow> string" where
  "rawBlock label content = ''{'' @ label @ '':'' @ content @ ''}''"

text \<open>
  \<open>blocksToMessage\<close>: the loop over the blocks updates the message and the five raw
  strings; the raw text of the message is their concatenation.
\<close>

record rawParts =
  rawHeader :: string
  rawAppHeader :: string
  rawUsrHeader :: string
  rawBody :: string
  rawTrailers :: string

fun blocksLoop :: "Block list \<Rightarrow> Message \<Rightarrow> rawParts \<Rightarrow> Message \<times> rawParts" where
  "blocksLoop [] m raws = (m, raws)"
| "blocksLoop (block # blocks) m raws =
     (if b_Label block = blockLabelBasicHeader then
        blocksLoop blocks (m \<lparr> m_BasicHeader := block \<rparr>)
          (raws \<lparr> rawHeader := rawBlock blockLabelBasicHeader (b_Content block) \<rparr>)
      else if b_Label block = blockLabelAppHeader then
        blocksLoop blocks (m \<lparr> m_AppHeader := block \<rparr>)
          (raws \<lparr> rawAppHeader := rawBlock blockLabelAppHeader (b_Content block) \<rparr>)
      else if b_Label block = blockLabelUsrHeader then
        blocksLoop blocks (m \<lparr> m_UsrHeader := block \<rparr>)
          (raws \<lparr> rawUsrHeader := rawBlock blockLabelUsrHeader (b_Content block) \<rparr>)
      else if b_Label block = blockLabelBody then
        blocksLoop blocks (m \<lparr> m_Body := b_Fields block \<rparr>)
          (raws \<lparr> rawBody := rawBlock blockLabelBody (b_Content block) \<rparr>)
      else if b_Label block = blockLabelTrailers then
        blocksLoop blocks (m \<lparr> m_Trailers := block \<rparr>)
          (raws \<lparr> rawTrailers := rawBlock blockLabelTrailers (b_Content block) \<rparr>)
      else blocksLoop blocks m raws)"

definition blocksToMessage :: "Block list \<Rightarrow> int \<Rightarrow> Message" where
  "blocksToMessage blocks line =
     (case blocksLoop blocks
             \<lparr> m_Line = line, m_Raw = [], m_BasicHeader = zeroBlock, m_AppHeader = zeroBlock,
               m_UsrHeader = zeroBlock, m_Body = None, m_Trailers = zeroBlock \<rparr>
             \<lparr> rawHeader = [], rawAppHeader = [], rawUsrHeader = [], rawBody = [],
               rawTrailers = [] \<rparr> of
        (m, raws) \<Rightarrow>
          m \<lparr> m_Raw := rawHeader raws @ rawAppHeader raws @ rawUsrHeader raws @ rawBody raws
                        @ rawTrailers raws \<rparr>)"

text \<open>
  The state of \<open>parser.run\<close>: the store of the maps with the next free address, the
  local variables of the function, and what it has sent on its two channels so far.
\<close>

record parser =
  p_store :: "nat \<Rightarrow> fields"
  p_next :: nat
  p_blocks :: "Block list"
  p_currLine :: int
  p_currBlock :: Block
  p_currSubBlock :: SubBlock
  p_currTag :: string
  p_messages :: "Message list"
  p_errors :: "Error list"

definition newBlock :: "parser \<Rightarrow> Block \<times> parser" where
  "newBlock p =
     (\<lparr> b_Label = [], b_Content = [], b_Fields = Some (p_next p), b_Blocks = [] \<rparr>,
      p \<lparr> p_store := (p_store p) (p_next p := Map.empty), p_next := p_next p + 1 \<rparr>)"

definition sendMessage :: "parser \<Rightarrow> parser" where
  "sendMessage p =
     (if length (p_blocks p) > 0
      then p \<lparr> p_messages := p_messages p @ [blocksToMessage (p_blocks p) (p_currLine p)] \<rparr>
      else p)"

text \<open>
  The case of \<open>itemFieldContent\<close>: the trimmed value is appended to the list of the
  current tag in the map of the current block.  Writing to a nil map panics.
\<close>

definition addField :: "parser \<Rightarrow> string \<Rightarrow> parser result" where
  "addField p v =
     (case b_Fields (p_currBlock p) of
        None \<Rightarrow> Panic
      | Some a \<Rightarrow>
          (let fs = p_store p a;
               fs = (if fs (p_currTag p) = None then fs (p_currTag p \<mapsto> []) else fs);
               fs = fs (p_currTag p \<mapsto> the (fs (p_currTag p)) @ [TrimSpace v])
           in Return (p \<lparr> p_store := (p_store p) (a := fs), p_currTag := [] \<rparr>)))"

text \<open>
  The loop of \<open>parser.run\<close> over the items of the channel.  It leaves at \<open>itemEOF\<close>, at
  an error when \<open>StopOnError\<close> is set, and when the channel is closed.
\<close>

fun runLoop :: "bool \<Rightarrow> parser \<Rightarrow> item list \<Rightarrow> parser result" where
  "runLoop stopOnError p [] = Return p"
| "runLoop stopOnError p (i # items) =
     (case it_typ i of
        itemBlockLabel \<Rightarrow>
          (let p = (if it_val i = blockLabelBasicHeader
                    then (sendMessage p) \<lparr> p_currLine := it_line i, p_blocks := [] \<rparr>
                    else p)
           in (case newBlock p of
                 (b, p) \<Rightarrow> runLoop stopOnError (p \<lparr> p_currBlock := b \<lparr> b_Label := it_val i \<rparr> \<rparr>) items))
      | itemBlockContent \<Rightarrow>
          runLoop stopOnError (p \<lparr> p_currBlock := (p_currBlock p) \<lparr> b_Content := it_val i \<rparr> \<rparr>) items
      | itemSubBlockLeftMeta \<Rightarrow>
          runLoop stopOnError (p \<lparr> p_currSubBlock := \<lparr> sb_Label = [], sb_Content = [] \<rparr> \<rparr>) items
      | itemSubBlockLabel \<Rightarrow>
          runLoop stopOnError (p \<lparr> p_currSubBlock := (p_currSubBlock p) \<lparr> sb_Label := it_val i \<rparr> \<rparr>) items
      | itemSubBlockContent \<Rightarrow>
          runLoop stopOnError (p \<lparr> p_currSubBlock := (p_currSubBlock p) \<lparr> sb_Content := it_val i \<rparr> \<rparr>) items
      | itemSubBlockRightMeta \<Rightarrow>
          runLoop stopOnError
            (p \<lparr> p_currBlock := (p_currBlock p)
                    \<lparr> b_Blocks := b_Blocks (p_currBlock p) @ [p_currSubBlock p] \<rparr> \<rparr>) items
      | itemTagContent \<Rightarrow> runLoop stopOnError (p \<lparr> p_currTag := it_val i \<rparr>) items
      | itemFieldContent \<Rightarrow>
          (case addField p (it_val i) of
             Panic \<Rightarrow> Panic
           | Return p \<Rightarrow> runLoop stopOnError p items)
      | itemBlockRightMeta \<Rightarrow>
          runLoop stopOnError (p \<lparr> p_blocks := p_blocks p @ [p_currBlock p] \<rparr>) items
      | itemError \<Rightarrow>
          (let p = p \<lparr> p_errors := p_errors p @ [\<lparr> e_Line = p_currLine p, e_Err = it_val i \<rparr>] \<rparr>
           in if stopOnError then Return p else runLoop stopOnError p items)
      | itemEOF \<Rightarrow> Return (sendMessage p)
      | _ \<Rightarrow> runLoop stopOnError p items)"

text \<open>
  \<open>parser.run\<close> from its initial state: no blocks, line 1, a new current block, zero
  sub-block and empty tag.
\<close>

definition run :: "bool \<Rightarrow> item list \<Rightarrow> parser result" where
  "run stopOnError items =
     (case newBlock \<lparr> p_store = (\<lambda>a. Map.empty), p_next = 0, p_blocks = [], p_currLine = 1,
                       p_currBlock = zeroBlock, p_currSubBlock = \<lparr> sb_Label = [], sb_Content = [] \<rparr>,
                       p_currTag = [], p_messages = [], p_errors = [] \<rparr> of
        (b, p) \<Rightarrow> runLoop stopOnError (p \<lparr> p_currBlock := b \<rparr>) items)"

text \<open>The body of a message that the parser has sent, read from the store of the maps.\<close>

definition Body :: "parser \<Rightarrow> Message \<Rightarrow> fields" where
  "Body p m = (case m_Body m of None \<Rightarrow> Map.empty | Some a \<Rightarrow> p_store p a)"


text \<open>The last block of a list that has a given label.\<close>

definition lastBlock :: "string \<Rightarrow> Block list \<Rightarrow> Block option" where
  "lastBlock label blocks = find (\<lambda>b. b_Label b = label) (rev blocks)"

definition rawOf :: "string \<Rightarrow> Block list \<Rightarrow> string" where
  "rawOf label blocks =
     (case lastBlock label blocks of None \<Rightarrow> [] | Some b \<Rightarrow> rawBlock label (b_Content b))"



text \<open>A string of white-space code points only.\<close>

definition spaces :: "string \<Rightarrow> bool" where
  "spaces s \<longleftrightarrow> TrimLeft s = []"


text \<open>
  The body of the last message that a run of the parser has sent (the empty map when it
  panicked or sent none).
\<close>

definition lastBody :: "parser result \<Rightarrow> fields" where
  "lastBody r =
     (case r of
        Panic \<Rightarrow> Map.empty
      | Return p \<Rightarrow> (case p_messages p of [] \<Rightarrow> Map.empty | m # ms \<Rightarrow> Body p (last (m # ms))))"









section \<open>The pattern compiler (package pattern): lexer\<close>

text \<open>
  The lexer of the field-format language.  The model covers pattern sources of ASCII
  characters (every format of the repository is one): there each byte is one code point,
  \<open>utf8.DecodeRuneInString\<close> has width 1 and \<open>unicode.IsDigit\<close> is the test for an
  ASCII digit.  \<open>Parse\<close> below answers \<open>Unsupported\<close> for any other source.  The positions
  are Go \<open>int\<close>s; a slice \<open>input[start:pos]\<close> with bounds out of order or out of range
  panics.  The result \<open>None\<close> of \<open>lnext\<close> is \<open>eof\<close>.
\<close>

datatype tokenType =
    tokenEOF | tokenLiteral | tokenOptionalLeftMeta | tokenOptionalRightMeta
  | tokenLineCountMeta | tokenLineCount | tokenCharCount | tokenCharCountStrictMeta
  | tokenCharSet | tokenOrPatternMeta

record token =
  t_typ :: tokenType
  t_val :: string

record lexer =
  l_input :: string
  l_pos :: int
  l_start :: int
  l_width :: int
  l_tokens :: "token list"

datatype stateFn =
    LexToPattern | LexNumber | LexLiteral | LexCharSet
  | LexItemCharCountStrictMeta | LexItemLineCountMeta
  | LexOptionalLeftMeta | LexOptionalRightMeta | LexOrPatternMeta

definition isCharSetSpecifier :: "char \<Rightarrow> bool" where
  "isCharSetSpecifier r \<longleftrightarrow> charSets [r] \<noteq> None"

definition lnext :: "lexer \<Rightarrow> (char option \<times> lexer) result" where
  "lnext l =
     (if l_pos l \<ge> int (length (l_input l)) then Return (None, l)
      else if l_pos l < 0 then Panic
      else Return (Some (l_input l ! nat (l_pos l)), l \<lparr> l_width := 1, l_pos := l_pos l + 1 \<rparr>))"

definition lbackup :: "lexer \<Rightarrow> lexer" where
  "lbackup l = l \<lparr> l_pos := l_pos l - l_width l \<rparr>"

definition emit :: "tokenType \<Rightarrow> lexer \<Rightarrow> lexer result" where
  "emit t l =
     (if 0 \<le> l_start l \<and> l_start l \<le> l_pos l \<and> l_pos l \<le> int (length (l_input l)) then
        Return (l \<lparr> l_tokens := l_tokens l
                        @ [\<lparr> t_typ = t,
                             t_val = take (nat (l_pos l - l_start l)) (drop (nat (l_start l)) (l_input l)) \<rparr>],
                    l_start := l_pos l \<rparr>)
      else Panic)"

text \<open>A state function returns the next state, or \<open>None\<close> for the nil that stops the
  run loop.\<close>

definition emitThen :: "tokenType \<Rightarrow> stateFn option \<Rightarrow> lexer \<Rightarrow> (stateFn option \<times> lexer) result" where
  "emitThen t st l = (case emit t l of Panic \<Rightarrow> Panic | Return l' \<Rightarrow> Return (st, l'))"

definition lexMeta :: "tokenType \<Rightarrow> stateFn \<Rightarrow> lexer \<Rightarrow> (stateFn option \<times> lexer) result" where
  "lexMeta typ nxt l =
     (case lnext l of Panic \<Rightarrow> Panic | Return (r, l') \<Rightarrow> emitThen typ (Some nxt) l')"

function lexNumber :: "lexer \<Rightarrow> (stateFn option \<times> lexer) result" where
  "lexNumber l =
     (case lnext l of
        Panic \<Rightarrow> Panic
      | Return (None, l') \<Rightarrow> Return (Some LexLiteral, lbackup l')
      | Return (Some r, l') \<Rightarrow>
          if numbers r then lexNumber l'
          else if r = CHR ''*'' then emitThen tokenLineCount (Some LexItemLineCountMeta) (lbackup l')
          else if r = CHR ''!'' then
            emitThen tokenCharCount (Some LexItemCharCountStrictMeta) (lbackup l')
          else if isCharSetSpecifier r then emitThen tokenCharCount (Some LexCharSet) (lbackup l')
          else Return (Some LexLiteral, lbackup l'))"
  by pat_completeness auto
termination
proof (relation "measure (\<lambda>l. nat (int (length (l_input l)) - l_pos l))")
  show "wf (measure (\<lambda>l. nat (int (length (l_input l)) - l_pos l)))" by simp
next
  fix l :: lexer and x2 r l' x2a
  assume "lnext l = Return x2" and "(r, l') = x2" and "r = Some x2a" and "numbers x2a"
  then have "lnext l = Return (Some x2a, l')" by simp
  then show "(l', l) \<in> measure (\<lambda>l. nat (int (length (l_input l)) - l_pos l))"
    by (auto simp: lnext_def split: if_splits)
qed

function lexLiteral :: "nat \<Rightarrow> lexer \<Rightarrow> (stateFn option \<times> lexer) result" where
  "lexLiteral digitsFound l =
     (case lnext l of
        Panic \<Rightarrow> Panic
      | Return (None, l') \<Rightarrow> emitThen tokenLiteral (Some LexToPattern) l'
      | Return (Some r, l') \<Rightarrow>
          if r = CHR ''('' then emitThen tokenLiteral (Some LexOptionalLeftMeta) (lbackup l')
          else if r = CHR '')'' then emitThen tokenLiteral (Some LexOptionalRightMeta) (lbackup l')
          else if r = CHR ''|'' then emitThen tokenLiteral (Some LexOrPatternMeta) (lbackup l')
          else if digitsFound > 0 \<and> (r = CHR ''!'' \<or> isCharSetSpecifier r \<or> r = CHR ''*'') then
            emitThen tokenLiteral (Some LexNumber)
              (l' \<lparr> l_pos := l_pos l' - (int digitsFound + 1) \<rparr>)
          else if numbers r then lexLiteral (digitsFound + 1) l'
          else lexLiteral 0 l')"
  by pat_completeness auto
termination
proof (relation "measure (\<lambda>(d, l). nat (int (length (l_input l)) - l_pos l))")
  show "wf (measure (\<lambda>(d, l). nat (int (length (l_input l)) - l_pos l)))" by simp
next
  fix digitsFound :: nat and l :: lexer and x2 r l' x2a
  assume "lnext l = Return x2" and "(r, l') = x2" and "r = Some x2a"
  then have "lnext l = Return (Some x2a, l')" by simp
  then have d: "nat (int (length (l_input l')) - l_pos l') < nat (int (length (l_input l)) - l_pos l)"
    by (auto simp: lnext_def split: if_splits)
  from d show "((digitsFound + 1, l'), digitsFound, l)
      \<in> measure (\<lambda>(d, l). nat (int (length (l_input l)) - l_pos l))" by simp
  from d show "((0, l'), digitsFound, l)
      \<in> measure (\<lambda>(d, l). nat (int (length (l_input l)) - l_pos l))" by simp
qed

declare lexNumber.simps [simp del] lexLiteral.simps [simp del]

definition lexToPattern :: "lexer \<Rightarrow> (stateFn option \<times> lexer) result" where
  "lexToPattern l =
     (case lnext l of
        Panic \<Rightarrow> Panic
      | Return (None, l') \<Rightarrow> emitThen tokenEOF None l'
      | Return (Some r, l') \<Rightarrow>
          if numbers r then Return (Some LexNumber, lbackup l')
          else if r = CHR ''('' then Return (Some LexOptionalLeftMeta, lbackup l')
          else if r = CHR '')'' then Return (Some LexOptionalRightMeta, lbackup l')
          else if r = CHR ''|'' then Return (Some LexOrPatternMeta, lbackup l')
          else Return (Some LexLiteral, lbackup l'))"

definition stateStep :: "stateFn \<Rightarrow> lexer \<Rightarrow> (stateFn option \<times> lexer) result" where
  "stateStep st l =
     (case st of
        LexToPattern \<Rightarrow> lexToPattern l
      | LexNumber \<Rightarrow> lexNumber l
      | LexLiteral \<Rightarrow> lexLiteral 0 l
      | LexCharSet \<Rightarrow> lexMeta tokenCharSet LexToPattern l
      | LexItemCharCountStrictMeta \<Rightarrow> lexMeta tokenCharCountStrictMeta LexCharSet l
      | LexItemLineCountMeta \<Rightarrow> lexMeta tokenLineCountMeta LexToPattern l
      | LexOptionalLeftMeta \<Rightarrow> lexMeta tokenOptionalLeftMeta LexToPattern l
      | LexOptionalRightMeta \<Rightarrow> lexMeta tokenOptionalRightMeta LexToPattern l
      | LexOrPatternMeta \<Rightarrow> lexMeta tokenOrPatternMeta LexToPattern l)"

text \<open>
  The run loop \<open>for state := l.lexToPattern; state != nil; { state = state() }\<close>, with
  a bound on the number of state functions it calls: \<open>None\<close> when the bound is reached
  before the loop ends.
\<close>

fun lexRun :: "nat \<Rightarrow> stateFn \<Rightarrow> lexer \<Rightarrow> lexer result option" where
  "lexRun 0 st l = None"
| "lexRun (Suc n) st l =
     (case stateStep st l of
        Panic \<Rightarrow> Some Panic
      | Return (None, l') \<Rightarrow> Some (Return l')
      | Return (Some st', l') \<Rightarrow> lexRun n st' l')"

definition lex :: "nat \<Rightarrow> string \<Rightarrow> token list result option" where
  "lex fuel input =
     (case lexRun fuel LexToPattern
             \<lparr> l_input = input, l_pos = 0, l_start = 0, l_width = 0, l_tokens = [] \<rparr> of
        None \<Rightarrow> None
      | Some Panic \<Rightarrow> Some Panic
      | Some (Return l) \<Rightarrow> Some (Return (l_tokens l)))"

section \<open>The pattern compiler (package pattern): parser\<close>

text \<open>
  The errors of the compiler, by the format string that builds them; a wrapping error
  carries the error it wraps.
\<close>

datatype cerr =
    UnclosedOptional
  | UnexpectedToken string
  | InParseOptional cerr
  | InParseOr cerr
  | InParseOrExpression cerr
  | InParseLineCount cerr
  | InParsePattern cerr
  | CouldNotCreateAst cerr
  | CouldNotParsePattern cerr

record astParser =
  ap_tokens :: "token list"
  ap_currTokenIndex :: int
  ap_currToken :: token

definition pnext :: "astParser \<Rightarrow> astParser" where
  "pnext p =
     (if ap_currTokenIndex p < int (length (ap_tokens p)) - 1 then
        p \<lparr> ap_currTokenIndex := ap_currTokenIndex p + 1,
            ap_currToken := ap_tokens p ! nat (ap_currTokenIndex p + 1) \<rparr>
      else p)"

definition pbackup :: "astParser \<Rightarrow> astParser" where
  "pbackup p =
     (if ap_currTokenIndex p > 0 then
        p \<lparr> ap_currTokenIndex := ap_currTokenIndex p - 1,
            ap_currToken := ap_tokens p ! nat (ap_currTokenIndex p - 1) \<rparr>
      else p)"

text \<open>\<open>peek\<close> indexes the tokens without a check; \<open>None\<close> is the panic.\<close>

definition ppeek :: "astParser \<Rightarrow> token option" where
  "ppeek p =
     (if 0 \<le> ap_currTokenIndex p + 1 \<and> ap_currTokenIndex p + 1 < int (length (ap_tokens p))
      then Some (ap_tokens p ! nat (ap_currTokenIndex p + 1)) else None)"

text \<open>
  The loops of the parser can spin: a token that no case of the \<open>switch\<close> handles leaves
  the state as it is, and the loop never ends.  Each parsing function therefore takes a
  bound on the number of loop rounds and calls it may still make.  Its result is
  \<open>OutOfFuel\<close> when the bound is reached, \<open>Faulted\<close> for a panic, \<open>Failed\<close> with the
  error it returns, or \<open>Parsed\<close> with the node it returns and the state of the parser.
  After an error the callers only wrap it and return.
\<close>

datatype 'a parsed = OutOfFuel | Faulted | Failed cerr | Parsed 'a astParser

definition andThen ::
  "'a parsed \<Rightarrow> (cerr \<Rightarrow> cerr) \<Rightarrow> ('a \<Rightarrow> astParser \<Rightarrow> 'b parsed) \<Rightarrow> 'b parsed" where
  "andThen r wrap k =
     (case r of
        OutOfFuel \<Rightarrow> OutOfFuel
      | Faulted \<Rightarrow> Faulted
      | Failed e \<Rightarrow> Failed (wrap e)
      | Parsed x p \<Rightarrow> k x p)"

text \<open>\<open>parseCharGroup\<close>; the error of \<open>Atoi\<close> is ignored and its value is kept.\<close>

fun parseCharGroup :: "nat \<Rightarrow> astParser \<Rightarrow> int \<Rightarrow> bool \<Rightarrow> node parsed" where
  "parseCharGroup 0 p charCount strict = OutOfFuel"
| "parseCharGroup (Suc n) p charCount strict =
     (case t_typ (ap_currToken p) of
        tokenCharCount \<Rightarrow> parseCharGroup n (pnext p) (fst (Atoi (t_val (ap_currToken p)))) strict
      | tokenCharCountStrictMeta \<Rightarrow> parseCharGroup n (pnext p) charCount True
      | tokenCharSet \<Rightarrow> Parsed (AstCharGroup charCount strict (t_val (ap_currToken p))) p
      | _ \<Rightarrow> parseCharGroup n p charCount strict)"

text \<open>
  The four mutually recursive functions, each one as the loop it consists of, with the
  local variables of the loop as arguments: the nodes collected so far and the flags.
  A call of \<open>parseOptional\<close> is \<open>parseOptional n p [] False False\<close>, and likewise for the
  others.
\<close>

function parsePattern :: "nat \<Rightarrow> astParser \<Rightarrow> node list \<Rightarrow> bool \<Rightarrow> (node list) parsed"
and parseOptional :: "nat \<Rightarrow> astParser \<Rightarrow> node list \<Rightarrow> bool \<Rightarrow> bool \<Rightarrow> node parsed"
and parseOr :: "nat \<Rightarrow> astParser \<Rightarrow> node \<Rightarrow> node list \<Rightarrow> bool \<Rightarrow> node parsed"
and parseLineCount :: "nat \<Rightarrow> astParser \<Rightarrow> int \<Rightarrow> node list \<Rightarrow> bool \<Rightarrow> node parsed"
where
  "parsePattern 0 p nodes lineCountFound = OutOfFuel"
| "parsePattern (Suc n) p nodes lineCountFound =
     (case t_typ (ap_currToken p) of
        tokenEOF \<Rightarrow> Parsed nodes p
      | tokenLiteral \<Rightarrow>
          parsePattern n (pnext p) (nodes @ [AstLiteral (t_val (ap_currToken p))]) lineCountFound
      | tokenOptionalLeftMeta \<Rightarrow>
          andThen (parseOptional n p [] False False) InParsePattern
            (\<lambda>optional p'. parsePattern n (pnext p') (nodes @ [optional]) lineCountFound)
      | tokenCharCount \<Rightarrow>
          andThen (parseCharGroup n p 0 False) InParsePattern
            (\<lambda>charGroup p'. parsePattern n (pnext p') (nodes @ [charGroup]) lineCountFound)
      | tokenLineCount \<Rightarrow>
          (let nodes = (if \<not> lineCountFound \<and> length nodes > 0
                        then [AstLineCountExpression 1 (AstPattern nodes)] else nodes)
           in andThen (parseLineCount n p 0 [] False) InParsePattern
                (\<lambda>lineCount p'. parsePattern n (pnext p') (nodes @ [lineCount]) True))
      | tokenOrPatternMeta \<Rightarrow>
          andThen (parseOr n p (AstPattern nodes) [] False) InParsePattern
            (\<lambda>or p'. parsePattern n (pnext p') [or] lineCountFound)
      | _ \<Rightarrow> parsePattern n p nodes lineCountFound)"
| "parseOptional 0 p wrappedNodes leftMetaFound lineCountFound = OutOfFuel"
| "parseOptional (Suc n) p wrappedNodes leftMetaFound lineCountFound =
     (case t_typ (ap_currToken p) of
        tokenEOF \<Rightarrow> Failed UnclosedOptional
      | tokenOptionalLeftMeta \<Rightarrow>
          if leftMetaFound then
            andThen (parseOptional n p [] False False) InParseOptional
              (\<lambda>optional p'.
                 parseOptional n (pnext p') (wrappedNodes @ [optional]) leftMetaFound lineCountFound)
          else parseOptional n (pnext p) wrappedNodes True lineCountFound
      | tokenOptionalRightMeta \<Rightarrow> Parsed (AstOptional (AstPattern wrappedNodes)) p
      | tokenLiteral \<Rightarrow>
          parseOptional n (pnext p) (wrappedNodes @ [AstLiteral (t_val (ap_currToken p))])
            leftMetaFound lineCountFound
      | tokenCharCount \<Rightarrow>
          andThen (parseCharGroup n p 0 False) InParseOptional
            (\<lambda>charGroup p'.
               parseOptional n (pnext p') (wrappedNodes @ [charGroup]) leftMetaFound lineCountFound)
      | tokenLineCount \<Rightarrow>
          (let wrappedNodes = (if \<not> lineCountFound \<and> length wrappedNodes > 0
                               then [AstLineCountExpression 1 (AstPattern wrappedNodes)]
                               else wrappedNodes)
           in andThen (parseLineCount n p 0 [] False) InParseOptional
                (\<lambda>lineCount p'.
                   parseOptional n (pnext p') (wrappedNodes @ [lineCount]) leftMetaFound True))
      | tokenOrPatternMeta \<Rightarrow>
          andThen (parseOr n p (AstPattern wrappedNodes) [] False) InParseOptional
            (\<lambda>or p'. parseOptional n (pnext p') [or] leftMetaFound lineCountFound)
      | _ \<Rightarrow> parseOptional n p wrappedNodes leftMetaFound lineCountFound)"
| "parseOr 0 p left rightNodes ownTokenFound = OutOfFuel"
| "parseOr (Suc n) p left rightNodes ownTokenFound =
     (case t_typ (ap_currToken p) of
        tokenOptionalRightMeta \<Rightarrow> Parsed (AstOrExpression left (AstPattern rightNodes)) (pbackup p)
      | tokenEOF \<Rightarrow> Parsed (AstOrExpression left (AstPattern rightNodes)) p
      | tokenOrPatternMeta \<Rightarrow>
          if ownTokenFound then
            andThen (parseOr n p (AstPattern rightNodes) [] False) InParseOr
              (\<lambda>or p'. Parsed (AstOrExpression left or) p')
          else parseOr n (pnext p) left rightNodes True
      | tokenLineCount \<Rightarrow>
          if length rightNodes = 0 then
            andThen (parseLineCount n p 0 [] False) InParseOrExpression
              (\<lambda>lineCount p'. Parsed (AstOrExpression left lineCount) p')
          else Parsed (AstOrExpression left (AstPattern rightNodes)) (pbackup p)
      | tokenLiteral \<Rightarrow>
          parseOr n (pnext p) left (rightNodes @ [AstLiteral (t_val (ap_currToken p))]) ownTokenFound
      | tokenOptionalLeftMeta \<Rightarrow>
          andThen (parseOptional n p [] False False) InParseOrExpression
            (\<lambda>optional p'. parseOr n (pnext p') left (rightNodes @ [optional]) ownTokenFound)
      | tokenCharCount \<Rightarrow>
          andThen (parseCharGroup n p 0 False) InParseOrExpression
            (\<lambda>charGroup p'. parseOr n (pnext p') left (rightNodes @ [charGroup]) ownTokenFound)
      | _ \<Rightarrow> parseOr n p left rightNodes ownTokenFound)"
| "parseLineCount 0 p lineCount wrappedNodes countSet = OutOfFuel"
| "parseLineCount (Suc n) p lineCount wrappedNodes countSet =
     (case t_typ (ap_currToken p) of
        tokenEOF \<Rightarrow> Parsed (AstLineCountExpression lineCount (AstPattern wrappedNodes)) p
      | tokenLineCount \<Rightarrow>
          if countSet then
            Parsed (AstLineCountExpression lineCount (AstPattern wrappedNodes)) (pbackup p)
          else parseLineCount n (pnext p) (fst (Atoi (t_val (ap_currToken p)))) wrappedNodes True
      | tokenLineCountMeta \<Rightarrow> parseLineCount n (pnext p) lineCount wrappedNodes countSet
      | tokenOptionalLeftMeta \<Rightarrow>
          andThen (parseOptional n p [] False False) InParseLineCount
            (\<lambda>optional p'.
               parseLineCount n (pnext p') lineCount (wrappedNodes @ [optional]) countSet)
      | tokenCharCount \<Rightarrow>
          andThen (parseCharGroup n p 0 False) InParseLineCount
            (\<lambda>charGroup p'.
               parseLineCount n (pnext p') lineCount (wrappedNodes @ [charGroup]) countSet)
      | tokenOrPatternMeta \<Rightarrow>
          (case ppeek p of
             None \<Rightarrow> Faulted
           | Some nextToken \<Rightarrow>
               if t_typ nextToken = tokenLineCount then
                 andThen (parseOr n p (AstLineCountExpression lineCount (AstPattern wrappedNodes))
                            [] False)
                   InParseLineCount (\<lambda>or p'. Parsed or p')
               else
                 andThen (parseOr n p (AstPattern wrappedNodes) [] False) InParseLineCount
                   (\<lambda>or p'. parseLineCount n (pnext p') lineCount [or] countSet))
      | tokenOptionalRightMeta \<Rightarrow>
          Parsed (AstLineCountExpression lineCount (AstPattern wrappedNodes)) (pbackup p)
      | _ \<Rightarrow> Failed (InParseLineCount (UnexpectedToken (t_val (ap_currToken p)))))"
  by pat_completeness auto

termination
  by (relation "measure (\<lambda>x. case x of
          Inl (Inl (n, _)) \<Rightarrow> n
        | Inl (Inr (n, _)) \<Rightarrow> n
        | Inr (Inl (n, _)) \<Rightarrow> n
        | Inr (Inr (n, _)) \<Rightarrow> n)") auto

text \<open>
  \<open>parse\<close> reads the tokens of the lexer and parses them; \<open>Parse\<close> is the entry of the
  package: lexer, parser, processor.  The result of the compiler is \<open>Unsupported\<close> for
  a source that is not ASCII.
\<close>

datatype 'a compiled = Unsupported | NoResult | CompilerPanic | CompileError cerr | Compiled 'a

definition parse :: "nat \<Rightarrow> token list \<Rightarrow> (node list) parsed" where
  "parse fuel tokens =
     andThen
       (parsePattern fuel
          (pnext \<lparr> ap_tokens = tokens, ap_currTokenIndex = - 1,
                   ap_currToken = \<lparr> t_typ = tokenEOF, t_val = [] \<rparr> \<rparr>) [] False)
       CouldNotCreateAst Parsed"

definition Parse :: "nat \<Rightarrow> string \<Rightarrow> (matcher list) compiled" where
  "Parse fuel input =
     (if \<exists>c \<in> set input. rn c \<ge> 128 then Unsupported
      else (case lex fuel input of
              None \<Rightarrow> NoResult
            | Some Panic \<Rightarrow> CompilerPanic
            | Some (Return tokens) \<Rightarrow>
                (case parse fuel tokens of
                   OutOfFuel \<Rightarrow> NoResult
                 | Faulted \<Rightarrow> CompilerPanic
                 | Failed e \<Rightarrow> CompileError (CouldNotParsePattern e)
                 | Parsed nodes p \<Rightarrow> Compiled (process nodes))))"

(*DEFS-END*)

section \<open>Properties of the field-format engine\<close>

lemma HasPrefix_prefix: "HasPrefix t s \<longleftrightarrow> prefix s t"
proof
  assume "HasPrefix t s"
  then have "take (length s) t = s" by (simp add: HasPrefix_def)
  then show "prefix s t" by (metis take_is_prefix)
next
  assume "prefix s t"
  then show "HasPrefix t s" by (auto simp: HasPrefix_def prefix_def)
qed

lemma Literal_partial_fails_iff:
  "(\<exists>r e. LiteralValidatePartial s t = (r, Some e)) \<longleftrightarrow> \<not> prefix s t"
  by (simp add: LiteralValidatePartial_def HasPrefix_prefix)

lemma Literal_partial_rest:
  "prefix s t \<Longrightarrow> LiteralValidatePartial s t = (drop (length s) t, None)"
  by (auto simp: LiteralValidatePartial_def HasPrefix_prefix prefix_def)

text \<open>
  Claim C6, as the code has it.  Matching \<open>s\<close> itself against \<open>Literal s\<close> succeeds and
  leaves nothing, and so does the full validation of \<open>s\<close> against the compiled pattern of
  that literal.  The partial match of \<open>Literal s\<close> on \<open>t\<close> fails exactly when \<open>t\<close> does not
  start with \<open>s\<close>.  The full validation of \<open>t\<close> fails exactly when \<open>t\<close> differs from \<open>s\<close>:
  it also rejects an input that starts with \<open>s\<close> and goes on.
\<close>

theorem Literal_validate:
  "ValidatePartial (Literal s) s l = Return ([], None)
   \<and> Validate (process [AstLiteral s]) s = Return None
   \<and> ((\<exists>r e. ValidatePartial (Literal s) t l = Return (r, Some e)) \<longleftrightarrow> \<not> prefix s t)
   \<and> ((\<exists>e. Validate (process [AstLiteral s]) t = Return (Some e)) \<longleftrightarrow> t \<noteq> s)"
proof -
  have a: "ValidatePartial (Literal s) s l = Return ([], None)"
    by (simp add: LiteralValidatePartial_def HasPrefix_def)
  have b: "Validate (process [AstLiteral s]) s = Return None"
    by (simp add: Validate_def process_def LiteralValidatePartial_def HasPrefix_def)
  have c: "(\<exists>r e. ValidatePartial (Literal s) t l = Return (r, Some e)) \<longleftrightarrow> \<not> prefix s t"
    using Literal_partial_fails_iff [of s t] by simp
  have d: "(\<exists>e. Validate (process [AstLiteral s]) t = Return (Some e)) \<longleftrightarrow> t \<noteq> s"
  proof (cases "prefix s t")
    case True
    then obtain u where u: "t = s @ u" by (auto simp: prefix_def)
    show ?thesis
      using True by (simp add: Validate_def process_def Literal_partial_rest u)
  next
    case False
    then have "t \<noteq> s" by auto
    moreover have "LiteralValidatePartial s t = (t, Some (LiteralExpected s))"
      using False by (simp add: LiteralValidatePartial_def HasPrefix_prefix)
    ultimately show ?thesis
      by (simp add: Validate_def process_def)
  qed
  from a b c d show ?thesis by blast
qed

text \<open>
  Claim C6 as it is stated fails for the full validation: \<open>ab\<close> starts with \<open>a\<close>, and
  validating it against the compiled literal \<open>a\<close> is an incomplete match.
\<close>

theorem Literal_validate_incomplete:
  "prefix ''a'' ''ab'' \<and> Validate (process [AstLiteral ''a'']) ''ab'' = Return (Some IncompleteMatch)"
  by (simp add: Validate_def process_def LiteralValidatePartial_def HasPrefix_def)

lemma not_numbers_comma: "\<not> numbers (CHR '','')"
  by (simp add: numbers_def rn_def)

lemma BeforeDecimalLoop_digits:
  "digits ds \<Longrightarrow>
   \<exists>j\<le>length ds. BeforeDecimalLoop cnt cc k ds = Some (cc + j, k + j)
      \<and> (j = length ds \<or> int (k + j) = cnt)"
proof (induction ds arbitrary: cc k)
  case Nil
  then show ?case by simp
next
  case (Cons d ds)
  show ?case
  proof (cases "int k = cnt")
    case True
    then show ?thesis by (intro exI[of _ 0]) simp
  next
    case False
    from Cons.prems have d: "numbers d" "d \<noteq> CHR '',''" and ds: "digits ds"
      using not_numbers_comma by (auto simp: digits_def)
    from Cons.IH [OF ds, of "cc + 1" "k + 1"] obtain j where
      j: "j \<le> length ds" "BeforeDecimalLoop cnt (cc + 1) (k + 1) ds = Some (cc + 1 + j, k + 1 + j)"
         "j = length ds \<or> int (k + 1 + j) = cnt" by blast
    show ?thesis
      using False d j by (intro exI[of _ "Suc j"]) auto
  qed
qed

lemma BeforeDecimalLoop_digits_comma:
  "digits ds \<Longrightarrow>
   (\<exists>j\<le>length ds. BeforeDecimalLoop cnt cc k (ds @ CHR '','' # rest) = Some (cc + j, k + j)
        \<and> int (k + j) = cnt)
   \<or> (BeforeDecimalLoop cnt cc k (ds @ CHR '','' # rest) = Some (cc + length ds + 1, k + length ds)
        \<and> (\<forall>j\<le>length ds. int (k + j) \<noteq> cnt))"
proof (induction ds arbitrary: cc k)
  case Nil
  then show ?case by simp
next
  case (Cons d ds)
  show ?case
  proof (cases "int k = cnt")
    case True
    then have "BeforeDecimalLoop cnt cc k ((d # ds) @ CHR '','' # rest) = Some (cc + 0, k + 0) \<and> int (k + 0) = cnt"
      by simp
    then show ?thesis by blast
  next
    case False
    from Cons.prems have d: "numbers d" "d \<noteq> CHR '',''" and ds: "digits ds"
      using not_numbers_comma by (auto simp: digits_def)
    have step: "BeforeDecimalLoop cnt cc k ((d # ds) @ CHR '','' # rest)
                 = BeforeDecimalLoop cnt (cc + 1) (k + 1) (ds @ CHR '','' # rest)"
      using False d by simp
    from Cons.IH [OF ds, of "cc + 1" "k + 1"] show ?thesis
    proof
      assume "\<exists>j\<le>length ds. BeforeDecimalLoop cnt (cc + 1) (k + 1) (ds @ CHR '','' # rest) = Some (cc + 1 + j, k + 1 + j) \<and> int (k + 1 + j) = cnt"
      then obtain j where "j \<le> length ds"
        "BeforeDecimalLoop cnt (cc + 1) (k + 1) (ds @ CHR '','' # rest) = Some (cc + 1 + j, k + 1 + j)"
        "int (k + 1 + j) = cnt" by blast
      then have "Suc j \<le> length (d # ds) \<and> BeforeDecimalLoop cnt cc k ((d # ds) @ CHR '','' # rest) = Some (cc + Suc j, k + Suc j)
        \<and> int (k + Suc j) = cnt" using step by simp
      then show ?thesis by blast
    next
      assume a: "BeforeDecimalLoop cnt (cc + 1) (k + 1) (ds @ CHR '','' # rest) = Some (cc + 1 + length ds + 1, k + 1 + length ds)
        \<and> (\<forall>j\<le>length ds. int (k + 1 + j) \<noteq> cnt)"
      have "\<forall>j\<le>length (d # ds). int (k + j) \<noteq> cnt"
      proof (intro allI impI)
        fix j assume "j \<le> length (d # ds)"
        show "int (k + j) \<noteq> cnt"
        proof (cases j)
          case 0 then show ?thesis using False by simp
        next
          case (Suc i)
          then have "i \<le> length ds" using \<open>j \<le> length (d # ds)\<close> by simp
          with a have "int (k + 1 + i) \<noteq> cnt" by blast
          then show ?thesis using Suc by simp
        qed
      qed
      then show ?thesis using a step by simp
    qed
  qed
qed

lemma AfterDecimalLoop_digits_all:
  "digits ds \<Longrightarrow> int cbd + int (k + length ds) \<le> cnt \<Longrightarrow>
   AfterDecimalLoop cnt cbd cc k ds = (cc + length ds, k + length ds)"
proof (induction ds arbitrary: cc k)
  case Nil
  then show ?case by simp
next
  case (Cons d ds)
  from Cons.prems have d: "numbers d" and ds: "digits ds" by (auto simp: digits_def)
  from Cons.prems have ne: "int cbd + int k \<noteq> cnt" by simp
  have "AfterDecimalLoop cnt cbd (cc + 1) (k + 1) ds = (cc + 1 + length ds, k + 1 + length ds)"
    using Cons.IH [OF ds, of "k + 1" "cc + 1"] Cons.prems by simp
  then show ?case using d ne by simp
qed

lemma AfterDecimalLoop_stop:
  "int cbd + int k = cnt \<Longrightarrow> AfterDecimalLoop cnt cbd cc k xs = (cc, k)"
  by (cases xs) simp_all

lemma AfterDecimalLoop_digits_comma:
  "digits ds \<Longrightarrow>
   (\<exists>j\<le>length ds. AfterDecimalLoop cnt cbd cc k (ds @ CHR '','' # rest) = (cc + j, k + j))
   \<or> AfterDecimalLoop cnt cbd cc k (ds @ CHR '','' # rest) = (cc + length ds + 1, k + length ds)"
proof (induction ds arbitrary: cc k)
  case Nil
  then show ?case using not_numbers_comma by simp
next
  case (Cons d ds)
  show ?case
  proof (cases "int cbd + int k = cnt")
    case True
    then have "AfterDecimalLoop cnt cbd cc k ((d # ds) @ CHR '','' # rest) = (cc + 0, k + 0)"
      by simp
    then show ?thesis by blast
  next
    case False
    from Cons.prems have d: "numbers d" and ds: "digits ds" by (auto simp: digits_def)
    have step: "AfterDecimalLoop cnt cbd cc k ((d # ds) @ CHR '','' # rest)
                 = AfterDecimalLoop cnt cbd (cc + 1) (k + 1) (ds @ CHR '','' # rest)"
      using False d by simp
    from Cons.IH [OF ds, of "cc + 1" "k + 1"] show ?thesis
    proof
      assume "\<exists>j\<le>length ds. AfterDecimalLoop cnt cbd (cc + 1) (k + 1) (ds @ CHR '','' # rest) = (cc + 1 + j, k + 1 + j)"
      then obtain j where "j \<le> length ds"
        "AfterDecimalLoop cnt cbd (cc + 1) (k + 1) (ds @ CHR '','' # rest) = (cc + 1 + j, k + 1 + j)" by blast
      then have "Suc j \<le> length (d # ds) \<and> AfterDecimalLoop cnt cbd cc k ((d # ds) @ CHR '','' # rest) = (cc + Suc j, k + Suc j)"
        using step by simp
      then show ?thesis by blast
    next
      assume "AfterDecimalLoop cnt cbd (cc + 1) (k + 1) (ds @ CHR '','' # rest) = (cc + 1 + length ds + 1, k + 1 + length ds)"
      then show ?thesis using step by simp
    qed
  qed
qed


lemma Validate_d_group:
  "Validate (process [AstCharGroup c False ''d'']) input =
     Return (if snd (countAndStripFloats c input) \<noteq> [] then Some IncompleteMatch else None)"
  by (simp add: Validate_def process_def charSets_def CharGroupValidatePartial_def
        countAndStripChars_def split: prod.splits)

lemma floats_amount_accepted:
  assumes "digits ds1" "digits ds2" "ds2 \<noteq> []" "int (length ds1 + length ds2) \<le> c"
  shows "countAndStripFloats c (ds1 @ CHR '','' # ds2) = (length ds1 + length ds2, [])"
proof -
  have lt: "\<And>j. j \<le> length ds1 \<Longrightarrow> int (0 + j) \<noteq> c"
    using assms(3,4) by (cases ds2) auto
  from BeforeDecimalLoop_digits_comma [OF assms(1), of c 0 0 ds2] lt
  have b: "BeforeDecimalLoop c 0 0 (ds1 @ CHR '','' # ds2) = Some (length ds1 + 1, length ds1)"
    by auto
  have a: "AfterDecimalLoop c (length ds1) (length ds1 + 1) 0 ds2
             = (length ds1 + 1 + length ds2, 0 + length ds2)"
    using AfterDecimalLoop_digits_all [OF assms(2), of "length ds1" 0 c "length ds1 + 1"] assms(4)
    by simp
  show ?thesis
    using b a assms(3) by (simp add: countAndStripFloats_def)
qed

lemma floats_no_comma:
  assumes "digits ds"
  shows "countAndStripFloats c ds = (0, ds)"
proof -
  from BeforeDecimalLoop_digits [OF assms, of c 0 0] obtain j where
    j: "j \<le> length ds" "BeforeDecimalLoop c 0 0 ds = Some (j, j)" "j = length ds \<or> int j = c"
    by auto
  have "AfterDecimalLoop c j j 0 (drop j ds) = (j, 0)"
  proof (cases "int j = c")
    case True
    then show ?thesis using AfterDecimalLoop_stop [of j 0 c j] by simp
  next
    case False
    with j have "drop j ds = []" by simp
    then show ?thesis by simp
  qed
  then show ?thesis using j by (simp add: countAndStripFloats_def)
qed

lemma floats_no_fraction:
  assumes "digits ds"
  shows "countAndStripFloats c (ds @ [CHR '','']) = (0, ds @ [CHR '',''])"
proof -
  from BeforeDecimalLoop_digits_comma [OF assms, of c 0 0 "[]"]
  show ?thesis
  proof
    assume "\<exists>j\<le>length ds. BeforeDecimalLoop c 0 0 (ds @ [CHR '','']) = Some (0 + j, 0 + j) \<and> int (0 + j) = c"
    then obtain j where j: "BeforeDecimalLoop c 0 0 (ds @ [CHR '','']) = Some (j, j)" "int j = c"
      by auto
    have "AfterDecimalLoop c j j 0 (drop j (ds @ [CHR '',''])) = (j, 0)"
      using AfterDecimalLoop_stop [of j 0 c j] j(2) by simp
    then show ?thesis using j by (simp add: countAndStripFloats_def)
  next
    assume "BeforeDecimalLoop c 0 0 (ds @ [CHR '','']) = Some (0 + length ds + 1, 0 + length ds)
      \<and> (\<forall>j\<le>length ds. int (0 + j) \<noteq> c)"
    then show ?thesis by (simp add: countAndStripFloats_def)
  qed
qed

lemma floats_two_commas:
  assumes "digits ds1" "digits ds2" "ds3 \<noteq> []"
  shows "snd (countAndStripFloats c (ds1 @ CHR '','' # ds2 @ CHR '','' # ds3)) \<noteq> []"
proof -
  let ?inp = "ds1 @ CHR '','' # ds2 @ CHR '','' # ds3"
  from BeforeDecimalLoop_digits_comma [OF assms(1), of c 0 0 "ds2 @ CHR '','' # ds3"]
  show ?thesis
  proof
    assume "\<exists>j\<le>length ds1. BeforeDecimalLoop c 0 0 ?inp = Some (0 + j, 0 + j) \<and> int (0 + j) = c"
    then obtain j where j: "BeforeDecimalLoop c 0 0 ?inp = Some (j, j)" "int j = c"
      by auto
    have "AfterDecimalLoop c j j 0 (drop j ?inp) = (j, 0)"
      using AfterDecimalLoop_stop [of j 0 c j] j(2) by simp
    then show ?thesis using j by (simp add: countAndStripFloats_def)
  next
    assume b: "BeforeDecimalLoop c 0 0 ?inp = Some (0 + length ds1 + 1, 0 + length ds1)
      \<and> (\<forall>j\<le>length ds1. int (0 + j) \<noteq> c)"
    have dr: "drop (length ds1 + 1) ?inp = ds2 @ CHR '','' # ds3" by simp
    from AfterDecimalLoop_digits_comma [OF assms(2), of c "length ds1" "length ds1 + 1" 0 ds3]
    show ?thesis
    proof
      assume "\<exists>j\<le>length ds2. AfterDecimalLoop c (length ds1) (length ds1 + 1) 0 (ds2 @ CHR '','' # ds3)
                = (length ds1 + 1 + j, 0 + j)"
      then obtain j where j: "j \<le> length ds2"
        "AfterDecimalLoop c (length ds1) (length ds1 + 1) 0 (ds2 @ CHR '','' # ds3) = (length ds1 + 1 + j, j)"
        by auto
      have "drop (length ds1 + 1 + j) ?inp = drop j ds2 @ CHR '','' # ds3"
        using j(1) by simp
      then show ?thesis using b j dr by (simp add: countAndStripFloats_def)
    next
      assume a: "AfterDecimalLoop c (length ds1) (length ds1 + 1) 0 (ds2 @ CHR '','' # ds3)
                = (length ds1 + 1 + length ds2 + 1, 0 + length ds2)"
      have "drop (length ds1 + 1 + length ds2 + 1) ?inp = ds3" by simp
      then show ?thesis using b a dr assms(3) by (simp add: countAndStripFloats_def)
    qed
  qed
qed

text \<open>
  Claim C2.  For the compiled pattern of one non-strict character group of class \<open>d\<close>
  with count \<open>c\<close>, and runs of digits \<open>ds1\<close>, \<open>ds2\<close>, \<open>ds3\<close> with \<open>ds1\<close> and \<open>ds3\<close> not
  empty: validation succeeds on \<open>ds1,ds3\<close> when the two runs have at most \<open>c\<close> digits
  together, and it fails on \<open>ds1\<close> (no comma), on \<open>ds1,\<close> (no digit after the comma) and
  on \<open>ds1,ds2,ds3\<close> (two commas).
\<close>

theorem d_class_amount:
  assumes "digits ds1" and "digits ds2" and "digits ds3" and "ds1 \<noteq> []" and "ds3 \<noteq> []"
  shows "(int (length ds1 + length ds3) \<le> c \<longrightarrow>
            Validate (process [AstCharGroup c False ''d'']) (ds1 @ '','' @ ds3) = Return None)
       \<and> (\<exists>e. Validate (process [AstCharGroup c False ''d'']) ds1 = Return (Some e))
       \<and> (\<exists>e. Validate (process [AstCharGroup c False ''d'']) (ds1 @ '','') = Return (Some e))
       \<and> (\<exists>e. Validate (process [AstCharGroup c False ''d''])
                 (ds1 @ '','' @ ds2 @ '','' @ ds3) = Return (Some e))"
proof (intro conjI impI)
  assume "int (length ds1 + length ds3) \<le> c"
  then show "Validate (process [AstCharGroup c False ''d'']) (ds1 @ '','' @ ds3) = Return None"
    using floats_amount_accepted [OF assms(1,3,5)] by (simp add: Validate_d_group)
next
  show "\<exists>e. Validate (process [AstCharGroup c False ''d'']) ds1 = Return (Some e)"
    using floats_no_comma [OF assms(1), of c] assms(4) by (simp add: Validate_d_group)
next
  show "\<exists>e. Validate (process [AstCharGroup c False ''d'']) (ds1 @ '','') = Return (Some e)"
    using floats_no_fraction [OF assms(1), of c] by (simp add: Validate_d_group)
next
  show "\<exists>e. Validate (process [AstCharGroup c False ''d''])
                 (ds1 @ '','' @ ds2 @ '','' @ ds3) = Return (Some e)"
    using floats_two_commas [OF assms(1,2,5), of c] by (simp add: Validate_d_group)
qed

theorem d_class_amount_witness:
  "digits ''12'' \<and> digits ''3'' \<and> digits ''45'' \<and> int (length ''12'' + length ''45'') \<le> 15
   \<and> Validate (process [AstCharGroup 15 False ''d'']) ''12,45'' = Return None
   \<and> (\<exists>e. Validate (process [AstCharGroup 15 False ''d'']) ''12'' = Return (Some e))
   \<and> (\<exists>e. Validate (process [AstCharGroup 15 False ''d'']) ''12,'' = Return (Some e))
   \<and> (\<exists>e. Validate (process [AstCharGroup 15 False ''d'']) ''12,3,45'' = Return (Some e))"
proof -
  have d: "digits ''12''" "digits ''3''" "digits ''45''"
    by (simp_all add: digits_def numbers_def rn_def)
  have n: "''12'' \<noteq> []" "''45'' \<noteq> []" by simp_all
  show ?thesis
    using d d_class_amount [OF d n, of 15] by simp
qed


section \<open>Properties of the header decoders\<close>

lemma digitsValue_digits:
  "digits ds \<Longrightarrow>
   digitsValue ds n = Some (foldl (\<lambda>n ch. n * 10 + (rn ch - rn (CHR ''0''))) n ds)"
  by (induction ds arbitrary: n) (simp_all add: digits_def)

lemma digitsValue_non_digit:
  "ch \<in> set s \<Longrightarrow> \<not> numbers ch \<Longrightarrow> digitsValue s n = None"
  by (induction s arbitrary: n) auto

lemma foldl_decimal_bound:
  "digits ds \<Longrightarrow>
   foldl (\<lambda>n ch. n * 10 + (rn ch - rn (CHR ''0''))) n ds < (n + 1) * 10 ^ length ds"
proof (induction ds arbitrary: n)
  case Nil
  then show ?case by simp
next
  case (Cons d ds)
  from Cons.prems have d: "numbers d" and ds: "digits ds" by (simp_all add: digits_def)
  from d have "rn d \<le> rn (CHR ''9'')" by (simp add: numbers_def)
  moreover have "rn (CHR ''9'') = 57" "rn (CHR ''0'') = 48" by (simp_all add: rn_def)
  ultimately have k: "rn d - rn (CHR ''0'') \<le> 9" by linarith
  have "foldl (\<lambda>n ch. n * 10 + (rn ch - rn (CHR ''0''))) (n * 10 + (rn d - rn (CHR ''0''))) ds
          < (n * 10 + (rn d - rn (CHR ''0'')) + 1) * 10 ^ length ds"
    by (rule Cons.IH [OF ds])
  also have "\<dots> \<le> (n * 10 + 10) * 10 ^ length ds"
    using k by (intro mult_right_mono) simp_all
  also have "\<dots> = (n + 1) * 10 ^ length (d # ds)"
    by (simp add: algebra_simps)
  finally show ?case by simp
qed

lemma decimal_strip_zeros:
  "decimal (dropWhile (\<lambda>c. c = CHR ''0'') ds) = decimal ds"
proof -
  have "foldl (\<lambda>n ch. n * 10 + (rn ch - rn (CHR ''0''))) 0 (dropWhile (\<lambda>c. c = CHR ''0'') ds)
        = foldl (\<lambda>n ch. n * 10 + (rn ch - rn (CHR ''0''))) 0 ds"
  proof (induction ds)
    case Nil
    show ?case by simp
  next
    case (Cons d ds)
    show ?case
    proof (cases "d = CHR ''0''")
      case True
      then show ?thesis using Cons.IH by simp
    next
      case False
      then show ?thesis by simp
    qed
  qed
  then show ?thesis by (simp add: decimal_def)
qed

lemma Atoi_digits:
  assumes "s \<noteq> []" and "numbers (hd s)" and "digitsValue s 0 = Some v" and "v < 2 ^ 63"
  shows "Atoi s = (int v, True)"
proof -
  from assms(2) have nosign: "hd s \<noteq> CHR ''-''" "hd s \<noteq> CHR ''+''"
    by (auto simp: numbers_def rn_def)
  from assms(4) have "\<not> v \<ge> 2 ^ 63" by simp
  then show ?thesis
    using assms(1,3) nosign unfolding Atoi_def Let_def by simp
qed

lemma Atoi_non_digit:
  assumes "ch \<in> set s" and "\<not> numbers ch" and "ch \<noteq> CHR ''+''" and "ch \<noteq> CHR ''-''"
  shows "Atoi s = (0, False)"
proof -
  let ?body = "if s \<noteq> [] \<and> (hd s = CHR ''-'' \<or> hd s = CHR ''+'') then tl s else s"
  have "ch \<in> set ?body"
    using assms(1,3,4) by (cases s) auto
  then have "digitsValue ?body 0 = None"
    using assms(2) by (rule digitsValue_non_digit)
  then show ?thesis
    unfolding Atoi_def Let_def by simp
qed


lemma mem_dropWhile: "x \<in> set xs \<Longrightarrow> \<not> P x \<Longrightarrow> x \<in> set (dropWhile P xs)"
  by (induction xs) auto

lemma Atoi_stripped_digits:
  assumes "digits ds" and "1 \<le> decimal ds" and "length ds \<le> 18"
  shows "Atoi (dropWhile (\<lambda>c. c = CHR ''0'') ds) = (int (decimal ds), True)"
proof -
  define s where "s = dropWhile (\<lambda>c. c = CHR ''0'') ds"
  have ds': "digits s"
    using assms(1) unfolding s_def by (auto simp: digits_def list_all_iff dest: set_dropWhileD)
  have dec: "decimal s = decimal ds"
    unfolding s_def by (rule decimal_strip_zeros)
  have ne: "s \<noteq> []"
  proof
    assume "s = []"
    then have "decimal s = 0" by (simp add: decimal_def)
    with assms(2) dec show False by simp
  qed
  then have hd: "numbers (hd s)" using ds' by (cases s) (simp_all add: digits_def)
  have v: "digitsValue s 0 = Some (decimal ds)"
    using digitsValue_digits [OF ds', of 0] dec by (simp add: decimal_def)
  have len: "length s \<le> 18"
    using assms(3) length_dropWhile_le [of "\<lambda>c. c = CHR ''0''" ds] unfolding s_def by simp
  have "decimal s < (0 + 1) * 10 ^ length s"
    unfolding decimal_def by (rule foldl_decimal_bound [OF ds'])
  also have "\<dots> = 10 ^ length s" by simp
  also have "\<dots> \<le> (10::nat) ^ 18" using len by (intro power_increasing) simp_all
  finally have "decimal ds < 10 ^ 18" using dec by simp
  moreover have "(10::nat) ^ 18 \<le> 2 ^ 63" by simp
  ultimately have small: "decimal ds < 2 ^ 63" by linarith
  show ?thesis
    using Atoi_digits [OF ne hd v small] unfolding s_def by simp
qed

lemma Atoi_stripped_non_digit:
  assumes "ch \<in> set tl0" and "\<not> numbers ch" and "ch \<noteq> CHR ''+''" and "ch \<noteq> CHR ''-''"
  shows "Atoi (dropWhile (\<lambda>c. c = CHR ''0'') tl0) = (0, False)"
proof -
  have z: "ch \<noteq> CHR ''0''" using assms(2) by (auto simp: numbers_def rn_def)
  have mem: "ch \<in> set (dropWhile (\<lambda>c. c = CHR ''0'') tl0)"
    using assms(1) z by (intro mem_dropWhile) simp_all
  show ?thesis
    by (rule Atoi_non_digit [OF mem assms(2,3,4)])
qed

lemma setObsolescencePeriod_digits:
  assumes "digits ds" and "1 \<le> decimal ds" and "length ds \<le> 18"
  shows "setObsolescencePeriod h ds =
           (h \<lparr> ahi_ObsolescencePeriodInMinutes := int (decimal ds) * 5 \<rparr>, None)"
  using Atoi_stripped_digits [OF assms]
  by (simp add: setObsolescencePeriod_def obsolescenceMinutesPerFactor_def)

lemma setObsolescencePeriod_non_digit:
  assumes "ch \<in> set tl0" and "\<not> numbers ch" and "ch \<noteq> CHR ''+''" and "ch \<noteq> CHR ''-''"
  shows "setObsolescencePeriod h tl0 = (h, Some (InvalidObsolescencePeriod 0))"
  using Atoi_stripped_non_digit [OF assms]
  by (simp add: setObsolescencePeriod_def)

text \<open>
  Claim C4.  Decoding the content of block 1 fails with the length error when the
  content is not 25 bytes long, else with the unknown-application-id error when
  \<open>[0:1]\<close> is none of F, A, L, else with the unknown-service-id error when \<open>[1:3]\<close> is
  none of 01, 21, and succeeds otherwise.  On success the application id comes from
  \<open>[0:1]\<close>, the service id from \<open>[1:3]\<close>, the logical terminal address is \<open>[3:15]\<close>, the
  session number \<open>[15:19]\<close> and the sequence number \<open>[19:25]\<close>.
\<close>

theorem basicHeader_decode:
  "snd (basicHeaderBlockToBasicHeader c) =
     (if length c \<noteq> 25 then Some (InvalidBasicHeaderLength (length c))
      else if slice c 0 1 \<notin> {''F'', ''A'', ''L''} then Some (UnknownApplicationID (slice c 0 1))
      else if slice c 1 3 \<notin> {''01'', ''21''} then Some (UnknownServiceID (slice c 1 3))
      else None)
   \<and> (snd (basicHeaderBlockToBasicHeader c) = None \<longrightarrow>
        bh_AppID (fst (basicHeaderBlockToBasicHeader c)) =
          (if slice c 0 1 = ''F'' then ApplicationIDFinancial
           else if slice c 0 1 = ''A'' then ApplicationIDGeneral else ApplicationIDLogin)
        \<and> bh_ServiceID (fst (basicHeaderBlockToBasicHeader c)) =
          (if slice c 1 3 = ''01'' then ServiceIDFINGPA else ServiceIDACKNACK)
        \<and> bh_LogicalTerminalAddress (fst (basicHeaderBlockToBasicHeader c)) = slice c 3 15
        \<and> bh_SessionNumber (fst (basicHeaderBlockToBasicHeader c)) = slice c 15 19
        \<and> bh_SequenceNumber (fst (basicHeaderBlockToBasicHeader c)) = slice c 19 25)"
proof -
  have d: "length c = 25 \<Longrightarrow> drop 19 c = slice c 19 25"
    by (simp add: slice_def)
  show ?thesis
    using d by (simp add: basicHeaderBlockToBasicHeader_def Let_def split: option.splits)
qed

theorem basicHeader_decode_witness:
  "snd (basicHeaderBlockToBasicHeader ''F01SCBLZAJJXXXX5712100002'') = None
   \<and> bh_AppID (fst (basicHeaderBlockToBasicHeader ''F01SCBLZAJJXXXX5712100002'')) = ApplicationIDFinancial
   \<and> bh_ServiceID (fst (basicHeaderBlockToBasicHeader ''F01SCBLZAJJXXXX5712100002'')) = ServiceIDFINGPA
   \<and> bh_LogicalTerminalAddress (fst (basicHeaderBlockToBasicHeader ''F01SCBLZAJJXXXX5712100002'')) = ''SCBLZAJJXXXX''
   \<and> bh_SessionNumber (fst (basicHeaderBlockToBasicHeader ''F01SCBLZAJJXXXX5712100002'')) = ''5712''
   \<and> bh_SequenceNumber (fst (basicHeaderBlockToBasicHeader ''F01SCBLZAJJXXXX5712100002'')) = ''100002''"
  using basicHeader_decode [of "''F01SCBLZAJJXXXX5712100002''"]
  by (simp add: slice_def)

lemmas appHeaderInput_defs =
  appHeaderBlockToAppHeaderInput_def Let_def setPriorityOrDeliveryMonitor_def setPriority_def
  setDeliveryMonitor_def

lemma appHeaderInput_tail_ok:
  assumes v: "validTailPrefix content"
    and so: "\<And>h. setObsolescencePeriod h (drop (length content - 3) content) =
                  (h \<lparr> ahi_ObsolescencePeriodInMinutes := r \<rparr>, None)"
  shows "snd (appHeaderBlockToAppHeaderInput content) = None
     \<and> ahi_ObsolescencePeriodInMinutes (fst (appHeaderBlockToAppHeaderInput content)) = r"
proof -
  from v consider
      (a) "length content = 19"
    | (b) "length content = 20" "slice content 16 17 \<in> {''S'', ''N'', ''U'', ''1'', ''2'', ''3''}"
    | (c) "length content = 21" "slice content 16 17 \<in> {''S'', ''N'', ''U''}"
          "slice content 17 18 \<in> {''1'', ''2'', ''3''}"
    unfolding validTailPrefix_def by blast
  then show ?thesis
  proof cases
    case a
    with so show ?thesis by (simp add: appHeaderInput_defs)
  next
    case b
    with so show ?thesis by (auto simp add: appHeaderInput_defs)
  next
    case c
    with so show ?thesis by (auto simp add: appHeaderInput_defs)
  qed
qed

lemma appHeaderInput_tail_err:
  assumes v: "validTailPrefix content"
    and so: "\<And>h. setObsolescencePeriod h (drop (length content - 3) content) = (h, Some e)"
  shows "snd (appHeaderBlockToAppHeaderInput content) = Some (CouldNotSetObsolescencePeriod e)"
proof -
  from v consider
      (a) "length content = 19"
    | (b) "length content = 20" "slice content 16 17 \<in> {''S'', ''N'', ''U'', ''1'', ''2'', ''3''}"
    | (c) "length content = 21" "slice content 16 17 \<in> {''S'', ''N'', ''U''}"
          "slice content 17 18 \<in> {''1'', ''2'', ''3''}"
    unfolding validTailPrefix_def by blast
  then show ?thesis
  proof cases
    case a
    with so show ?thesis by (simp add: appHeaderInput_defs)
  next
    case b
    with so show ?thesis by (auto simp add: appHeaderInput_defs)
  next
    case c
    with so show ?thesis by (auto simp add: appHeaderInput_defs)
  qed
qed

lemma Atoi_unsigned_non_digit:
  assumes "s \<noteq> []" and "hd s \<noteq> CHR ''-''" and "hd s \<noteq> CHR ''+''"
    and "ch \<in> set s" and "\<not> numbers ch"
  shows "Atoi s = (0, False)"
proof -
  have "digitsValue s 0 = None"
    using assms(4,5) by (rule digitsValue_non_digit)
  then show ?thesis
    using assms(1,2,3) unfolding Atoi_def Let_def by simp
qed

lemma Atoi_sign_only_or_non_digit:
  assumes "sg = CHR ''+'' \<or> sg = CHR ''-''" and "ds = [] \<or> \<not> digits ds"
  shows "Atoi (sg # ds) = (0, False)"
proof (cases "ds = []")
  case True
  then show ?thesis using assms(1) unfolding Atoi_def Let_def by auto
next
  case False
  with assms(2) obtain ch where "ch \<in> set ds" "\<not> numbers ch"
    by (auto simp: digits_def list_all_iff)
  then have "digitsValue ds 0 = None" by (rule digitsValue_non_digit)
  then show ?thesis using assms(1) False unfolding Atoi_def Let_def by auto
qed

lemma Atoi_signed_digits:
  assumes "sg = CHR ''+'' \<or> sg = CHR ''-''" and "ds \<noteq> []" and "digits ds" and "length ds \<le> 18"
  shows "Atoi (sg # ds) = (if sg = CHR ''-'' then - int (decimal ds) else int (decimal ds), True)"
proof -
  have v: "digitsValue ds 0 = Some (decimal ds)"
    using digitsValue_digits [OF assms(3), of 0] by (simp add: decimal_def)
  have "decimal ds < (0 + 1) * 10 ^ length ds"
    unfolding decimal_def by (rule foldl_decimal_bound [OF assms(3)])
  also have "\<dots> = 10 ^ length ds" by simp
  also have "\<dots> \<le> (10::nat) ^ 18" using assms(4) by (intro power_increasing) simp_all
  finally have "decimal ds < 10 ^ 18" .
  moreover have "(10::nat) ^ 18 \<le> 2 ^ 63" by simp
  ultimately have small: "decimal ds < 2 ^ 63" by linarith
  then have "\<not> decimal ds \<ge> 2 ^ 63" "\<not> decimal ds > 2 ^ 63" by simp_all
  then show ?thesis
    using assms(1,2) v unfolding Atoi_def Let_def by auto
qed

lemma setObsolescencePeriod_signed:
  assumes "signedTail t" and "length t \<le> 18"
  shows "setObsolescencePeriod h t =
           (h \<lparr> ahi_ObsolescencePeriodInMinutes := signedValue t * 5 \<rparr>, None)"
proof -
  from assms(1) obtain sg ds where s: "dropWhile (\<lambda>c. c = CHR ''0'') t = sg # ds"
    and sg: "sg = CHR ''+'' \<or> sg = CHR ''-''" and ds: "ds \<noteq> []" "digits ds"
    by (auto simp: signedTail_def split: list.splits)
  have "length (sg # ds) \<le> length t"
    using length_dropWhile_le [of "\<lambda>c. c = CHR ''0''" t] unfolding s .
  with assms(2) have len: "length ds \<le> 18" by simp
  have "Atoi (sg # ds) = (signedValue t, True)"
    using Atoi_signed_digits [OF sg ds len] by (simp add: signedValue_def s)
  then show ?thesis
    by (simp add: setObsolescencePeriod_def s obsolescenceMinutesPerFactor_def)
qed

lemma setObsolescencePeriod_rejected:
  assumes "\<not> digits t" and "\<not> signedTail t"
  shows "setObsolescencePeriod h t = (h, Some (InvalidObsolescencePeriod 0))"
proof -
  define s where "s = dropWhile (\<lambda>c. c = CHR ''0'') t"
  from assms(1) obtain ch where ch: "ch \<in> set t" "\<not> numbers ch"
    by (auto simp: digits_def list_all_iff)
  then have "ch \<noteq> CHR ''0''" by (auto simp: numbers_def rn_def)
  with ch(1) have mem: "ch \<in> set s" unfolding s_def by (intro mem_dropWhile) simp_all
  then obtain sg ds where s: "s = sg # ds" by (cases s) auto
  have "Atoi s = (0, False)"
  proof (cases "sg = CHR ''+'' \<or> sg = CHR ''-''")
    case True
    with assms(2) have "ds = [] \<or> \<not> digits ds"
      by (auto simp: signedTail_def s [unfolded s_def])
    from Atoi_sign_only_or_non_digit [OF True this] show ?thesis by (simp add: s)
  next
    case False
    then have "hd s \<noteq> CHR ''-''" "hd s \<noteq> CHR ''+''" "s \<noteq> []" by (simp_all add: s)
    from Atoi_unsigned_non_digit [OF this(3,1,2) mem ch(2)] show ?thesis .
  qed
  then show ?thesis
    by (simp add: setObsolescencePeriod_def s_def [symmetric])
qed

text \<open>
  Claim C8, amended.  For an input application header of length 19, 20 or 21 whose
  priority and delivery-monitor characters before the tail are accepted: a tail of
  three decimal digits with value \<open>d \<ge> 1\<close> decodes without error to an obsolescence
  period of \<open>d * 5\<close> minutes; a tail that is, once its leading zeros are removed, a sign
  followed by at least one decimal digit decodes without error to that signed number
  times 5 minutes; every other tail that is not three decimal digits is rejected with
  the invalid-obsolescence error.
\<close>

theorem obsolescence_period:
  assumes "validTailPrefix content"
  shows "(digits (drop (length content - 3) content)
            \<and> 1 \<le> decimal (drop (length content - 3) content) \<longrightarrow>
          snd (appHeaderBlockToAppHeaderInput content) = None
          \<and> ahi_ObsolescencePeriodInMinutes (fst (appHeaderBlockToAppHeaderInput content))
              = int (decimal (drop (length content - 3) content)) * 5)
       \<and> (signedTail (drop (length content - 3) content) \<longrightarrow>
          snd (appHeaderBlockToAppHeaderInput content) = None
          \<and> ahi_ObsolescencePeriodInMinutes (fst (appHeaderBlockToAppHeaderInput content))
              = signedValue (drop (length content - 3) content) * 5)
       \<and> (\<not> digits (drop (length content - 3) content)
            \<and> \<not> signedTail (drop (length content - 3) content) \<longrightarrow>
          snd (appHeaderBlockToAppHeaderInput content)
            = Some (CouldNotSetObsolescencePeriod (InvalidObsolescencePeriod 0)))"
proof (intro conjI impI)
  let ?t = "drop (length content - 3) content"
  have len: "length ?t \<le> 18" by simp
  {
    assume d: "digits ?t \<and> 1 \<le> decimal ?t"
    then have so: "\<And>h. setObsolescencePeriod h ?t =
        (h \<lparr> ahi_ObsolescencePeriodInMinutes := int (decimal ?t) * 5 \<rparr>, None)"
      using setObsolescencePeriod_digits [of ?t] len by blast
    from appHeaderInput_tail_ok [OF assms so]
    show "snd (appHeaderBlockToAppHeaderInput content) = None" by blast
    from appHeaderInput_tail_ok [OF assms so]
    show "ahi_ObsolescencePeriodInMinutes (fst (appHeaderBlockToAppHeaderInput content))
              = int (decimal ?t) * 5" by blast
  }
  {
    assume d: "signedTail ?t"
    have so: "\<And>h. setObsolescencePeriod h ?t =
        (h \<lparr> ahi_ObsolescencePeriodInMinutes := signedValue ?t * 5 \<rparr>, None)"
      by (rule setObsolescencePeriod_signed [OF d len])
    from appHeaderInput_tail_ok [OF assms so]
    show "snd (appHeaderBlockToAppHeaderInput content) = None" by blast
    from appHeaderInput_tail_ok [OF assms so]
    show "ahi_ObsolescencePeriodInMinutes (fst (appHeaderBlockToAppHeaderInput content))
              = signedValue ?t * 5" by blast
  }
  {
    assume "\<not> digits ?t \<and> \<not> signedTail ?t"
    then have so: "\<And>h. setObsolescencePeriod h ?t = (h, Some (InvalidObsolescencePeriod 0))"
      using setObsolescencePeriod_rejected [of ?t] by blast
    show "snd (appHeaderBlockToAppHeaderInput content)
            = Some (CouldNotSetObsolescencePeriod (InvalidObsolescencePeriod 0))"
      by (rule appHeaderInput_tail_err [OF assms so])
  }
qed

theorem obsolescence_period_witness:
  "validTailPrefix ''I940BOFAUS6BXBAMU2020'' \<and> digits ''020'' \<and> decimal ''020'' = 20
   \<and> snd (appHeaderBlockToAppHeaderInput ''I940BOFAUS6BXBAMU2020'') = None
   \<and> ahi_ObsolescencePeriodInMinutes (fst (appHeaderBlockToAppHeaderInput ''I940BOFAUS6BXBAMU2020'')) = 100
   \<and> validTailPrefix ''I940BOFAUS6BXBAMN-12'' \<and> signedTail ''-12''
   \<and> snd (appHeaderBlockToAppHeaderInput ''I940BOFAUS6BXBAMN-12'') = None
   \<and> ahi_ObsolescencePeriodInMinutes (fst (appHeaderBlockToAppHeaderInput ''I940BOFAUS6BXBAMN-12'')) = - 60
   \<and> validTailPrefix ''I940BOFAUS6BXBAM0+1'' \<and> signedTail ''0+1''
   \<and> snd (appHeaderBlockToAppHeaderInput ''I940BOFAUS6BXBAM0+1'') = None
   \<and> ahi_ObsolescencePeriodInMinutes (fst (appHeaderBlockToAppHeaderInput ''I940BOFAUS6BXBAM0+1'')) = 5
   \<and> validTailPrefix ''I940BOFAUS6BXBAMN02X'' \<and> \<not> digits ''02X'' \<and> \<not> signedTail ''02X''
   \<and> snd (appHeaderBlockToAppHeaderInput ''I940BOFAUS6BXBAMN02X'')
        = Some (CouldNotSetObsolescencePeriod (InvalidObsolescencePeriod 0))
   \<and> validTailPrefix ''I940BOFAUS6BXBAM1+2'' \<and> \<not> digits ''1+2'' \<and> \<not> signedTail ''1+2''
   \<and> snd (appHeaderBlockToAppHeaderInput ''I940BOFAUS6BXBAM1+2'')
        = Some (CouldNotSetObsolescencePeriod (InvalidObsolescencePeriod 0))
   \<and> validTailPrefix ''I940BOFAUS6BXBAM12-'' \<and> \<not> digits ''12-'' \<and> \<not> signedTail ''12-''
   \<and> snd (appHeaderBlockToAppHeaderInput ''I940BOFAUS6BXBAM12-'')
        = Some (CouldNotSetObsolescencePeriod (InvalidObsolescencePeriod 0))"
proof -
  have v: "validTailPrefix ''I940BOFAUS6BXBAMU2020''" "validTailPrefix ''I940BOFAUS6BXBAMN-12''"
    "validTailPrefix ''I940BOFAUS6BXBAM0+1''" "validTailPrefix ''I940BOFAUS6BXBAMN02X''"
    "validTailPrefix ''I940BOFAUS6BXBAM1+2''" "validTailPrefix ''I940BOFAUS6BXBAM12-''"
    by (simp_all add: validTailPrefix_def slice_def)
  have d: "digits ''020''" "decimal ''020'' = 20"
    "signedTail ''-12''" "signedValue ''-12'' = - 12"
    "signedTail ''0+1''" "signedValue ''0+1'' = 1"
    "\<not> digits ''02X''" "\<not> signedTail ''02X''"
    "\<not> digits ''1+2''" "\<not> signedTail ''1+2''"
    "\<not> digits ''12-''" "\<not> signedTail ''12-''"
    by (simp_all add: digits_def decimal_def signedTail_def signedValue_def numbers_def rn_def)
  show ?thesis
    using v d obsolescence_period [OF v(1)] obsolescence_period [OF v(2)]
      obsolescence_period [OF v(3)] obsolescence_period [OF v(4)]
      obsolescence_period [OF v(5)] obsolescence_period [OF v(6)] by simp
qed

text \<open>
  Claim C8 as it is stated fails.  With length 20 and the tail \<open>020\<close>, an unknown
  character at \<open>[16]\<close> stops the decoder before the tail: the error is not about the
  obsolescence period and the period stays 0.  The tail \<open>000\<close> has three decimal digits
  and is rejected, since nothing is left of it once the leading zeros are removed.  The
  tail \<open>+12\<close> is not three decimal digits and decodes to 60 minutes.
\<close>

theorem obsolescence_period_counterexample:
  "length ''I940BOFAUS6BXBAMX020'' = 20
   \<and> snd (appHeaderBlockToAppHeaderInput ''I940BOFAUS6BXBAMX020'')
        = Some (CouldNotSetPriorityOrDeliveryMonitor (InvalidPriorityOrDeliveryMonitor ''X''))
   \<and> ahi_ObsolescencePeriodInMinutes (fst (appHeaderBlockToAppHeaderInput ''I940BOFAUS6BXBAMX020'')) = 0
   \<and> length ''I940BOFAUS6BXBAM000'' = 19
   \<and> snd (appHeaderBlockToAppHeaderInput ''I940BOFAUS6BXBAM000'')
        = Some (CouldNotSetObsolescencePeriod (InvalidObsolescencePeriod 0))
   \<and> length ''I940BOFAUS6BXBAM+12'' = 19
   \<and> snd (appHeaderBlockToAppHeaderInput ''I940BOFAUS6BXBAM+12'') = None
   \<and> ahi_ObsolescencePeriodInMinutes (fst (appHeaderBlockToAppHeaderInput ''I940BOFAUS6BXBAM+12'')) = 60"
  by (simp add: appHeaderInput_defs setObsolescencePeriod_def Atoi_def slice_def numbers_def
        rn_def obsolescenceMinutesPerFactor_def)

section \<open>Properties of statement lines\<close>

lemma SplitLines_no_newline: "CHR 0x0A \<notin> set xs \<Longrightarrow> SplitLines xs = [xs]"
  by (induction xs) auto

lemma SplitLines_first_line:
  "CHR 0x0A \<notin> set xs \<Longrightarrow> SplitLines (xs @ CHR 0x0A # later) = xs # SplitLines later"
  by (induction xs) auto

lemma AmountLoop_end: "amountChars amt \<Longrightarrow> AmountLoop amt n = Panic"
  by (induction amt arbitrary: n) (auto simp: amountChars_def)

lemma AmountLoop_stop:
  "amountChars amt \<Longrightarrow> \<not> numbers x \<Longrightarrow> x \<noteq> CHR '','' \<Longrightarrow>
   AmountLoop (amt @ x # r) n = Return (n + length amt)"
  by (induction amt arbitrary: n) (auto simp: amountChars_def)

lemma amountChars_no_newline: "amountChars amt \<Longrightarrow> CHR 0x0A \<notin> set amt"
  by (auto simp: amountChars_def list_all_iff numbers_def rn_def)

lemma length6: "length d = 6 \<Longrightarrow> \<exists>a b c e f g. d = [a, b, c, e, f, g]"
  by (auto simp: length_Suc_conv numeral_eq_Suc)

lemma getnum2_chars: "getnum2 (a # b # r) = Some n \<Longrightarrow> numbers a \<and> numbers b"
  by (auto simp: getnum2_def split: if_splits)

lemma timeParseDate_shape:
  assumes "timeParseDate d = Some t"
  shows "length d = 6 \<and> CHR 0x0A \<notin> set d"
proof -
  from assms have len: "length d = 6" by (auto simp: timeParseDate_def split: if_splits)
  then obtain a b c e f g where d: "d = [a, b, c, e, f, g]" using length6 by blast
  have nl: "\<not> numbers (CHR 0x0A)" by (simp add: numbers_def rn_def)
  from assms d obtain year where y: "parseYear2 [a, b] = Some year"
    and md: "parseMonthDay year [c, e, f, g] = Some t"
    by (simp add: timeParseDate_def split: option.splits)
  from y have "a \<noteq> CHR 0x0A \<and> b \<noteq> CHR 0x0A"
    using nl by (auto simp: parseYear2_def Let_def split: if_splits)
  moreover from md have "numbers c \<and> numbers e \<and> numbers f \<and> numbers g"
    by (auto simp: parseMonthDay_def getnum2_def split: option.splits if_splits)
  then have "c \<noteq> CHR 0x0A \<and> e \<noteq> CHR 0x0A \<and> f \<noteq> CHR 0x0A \<and> g \<noteq> CHR 0x0A"
    using nl by auto
  ultimately show ?thesis using len d by auto
qed

lemma HasPrefix_Nil [simp]: "HasPrefix s []"
  by (simp add: HasPrefix_def)

lemma HasPrefix_Nil_Cons [simp]: "\<not> HasPrefix [] (y # ys)"
  by (simp add: HasPrefix_def)

lemma HasPrefix_Cons [simp]: "HasPrefix (x # xs) (y # ys) \<longleftrightarrow> x = y \<and> HasPrefix xs ys"
  by (auto simp: HasPrefix_def)

lemma UnmarshalMT_first_line:
  assumes d: "timeParseDate d = Some t" and c: "code = ''C'' \<or> code = ''D''"
  shows "UnmarshalMT sl (d @ code @ r) =
     UnmarshalMT_rest
       (sl \<lparr> sl_Date := \<lparr> date_Set = True, date_Raw = d, date_Time = t \<rparr>,
             sl_FundsCode := (if code = ''C'' then FundsCodeCredit else FundsCodeDebit) \<rparr>)
       (d @ code @ r) (SplitLines (d @ code @ r)) (hd (SplitLines r))"
proof -
  from timeParseDate_shape [OF d] have len: "length d = 6" and nl: "CHR 0x0A \<notin> set d" by simp_all
  have nlc: "CHR 0x0A \<notin> set (d @ code)" using nl c by auto
  have first: "SplitLines (d @ code @ r) ! 0 = d @ code @ hd (SplitLines r)"
  proof (cases "CHR 0x0A \<in> set r")
    case False
    then have "CHR 0x0A \<notin> set (d @ code @ r)" using nlc by auto
    then show ?thesis using SplitLines_no_newline False by simp
  next
    case True
    then obtain r1 r2 where r: "r = r1 @ CHR 0x0A # r2" "CHR 0x0A \<notin> set r1"
      by (meson split_list_first)
    then have "CHR 0x0A \<notin> set ((d @ code) @ r1)" using nlc by auto
    from SplitLines_first_line [OF this, of r2] SplitLines_first_line [OF r(2), of r2]
    show ?thesis using r by simp
  qed
  show ?thesis
    using c first len d by (auto simp: UnmarshalMT_def Let_def UnmarshalMT_fundsCode_def)
qed

text \<open>
  Claim C9.  \<open>UnmarshalMT\<close> reads past the end of the line instead of returning an
  error.  Take a first line made of a date that parses, the funds code \<open>C\<close> or \<open>D\<close>, and
  an amount of digits and commas.  When the line ends there, with or without further
  lines after it, the amount loop indexes the byte after the last one and panics.  When
  the amount is followed by fewer than four bytes, the slice of the SWIFT code panics.
  The first statement of the witness is the input \<open>031020C20000,00\<close>.
\<close>

theorem statement_line_index_out_of_range:
  assumes "timeParseDate d \<noteq> None" and "code = ''C'' \<or> code = ''D''" and "amountChars amt"
  shows "UnmarshalMT sl (d @ code @ amt) = Panic
       \<and> UnmarshalMT sl (d @ code @ amt @ CHR 0x0A # later) = Panic
       \<and> (\<not> numbers x \<and> x \<noteq> CHR '','' \<and> x \<noteq> CHR 0x0A \<and> length r < 3 \<and> CHR 0x0A \<notin> set r
            \<longrightarrow> UnmarshalMT sl (d @ code @ amt @ x # r) = Panic)"
proof -
  from assms(1) obtain t where d: "timeParseDate d = Some t" by auto
  have nl: "CHR 0x0A \<notin> set amt" by (rule amountChars_no_newline [OF assms(3)])
  have a: "UnmarshalMT sl (d @ code @ amt) = Panic"
    using UnmarshalMT_first_line [OF d assms(2), of sl amt] SplitLines_no_newline [OF nl]
      AmountLoop_end [OF assms(3)]
    by (simp add: UnmarshalMT_rest_def)
  have b: "UnmarshalMT sl (d @ code @ amt @ CHR 0x0A # later) = Panic"
    using UnmarshalMT_first_line [OF d assms(2), of sl "amt @ CHR 0x0A # later"]
      SplitLines_first_line [OF nl, of later] AmountLoop_end [OF assms(3)]
    by (simp add: UnmarshalMT_rest_def)
  have c: "UnmarshalMT sl (d @ code @ amt @ x # r) = Panic"
    if x: "\<not> numbers x \<and> x \<noteq> CHR '','' \<and> x \<noteq> CHR 0x0A \<and> length r < 3 \<and> CHR 0x0A \<notin> set r"
  proof -
    from x nl have "CHR 0x0A \<notin> set (amt @ x # r)" by auto
    then have s: "SplitLines (amt @ x # r) = [amt @ x # r]" by (rule SplitLines_no_newline)
    from x have al: "AmountLoop (amt @ x # r) 0 = Return (0 + length amt)"
      using AmountLoop_stop [OF assms(3)] by blast
    show ?thesis
      using UnmarshalMT_first_line [OF d assms(2), of sl "amt @ x # r"] s al x
      by (simp add: UnmarshalMT_rest_def)
  qed
  from a b c show ?thesis by blast
qed

theorem statement_line_index_out_of_range_witness:
  "timeParseDate ''031020'' \<noteq> None \<and> amountChars ''20000,00''
   \<and> UnmarshalMT zeroStatementLine ''031020C20000,00'' = Panic
   \<and> UnmarshalMT zeroStatementLine ''031020C20000,00FMS'' = Panic"
proof -
  have d: "timeParseDate ''031020'' \<noteq> None"
    by (simp add: timeParseDate_def parseYear2_def parseMonthDay_def getnum2_def digitVal_def
          daysIn_def isLeap_def numbers_def rn_def)
  have c: "''C'' = ''C'' \<or> ''C'' = ''D''" by simp
  have a: "amountChars ''20000,00''" by (simp add: amountChars_def numbers_def rn_def)
  have x: "\<not> numbers (CHR ''F'')" by (simp add: numbers_def rn_def)
  show ?thesis
    using d a x statement_line_index_out_of_range [OF d c a, of zeroStatementLine "[]" "CHR ''F''" "''MS''"]
    by simp
qed

section \<open>Properties of the block parser\<close>

lemmas label_defs = blockLabelBasicHeader_def blockLabelAppHeader_def blockLabelUsrHeader_def
  blockLabelBody_def blockLabelTrailers_def

lemma find_app:
  "find P (xs @ ys) = (case find P xs of None \<Rightarrow> find P ys | Some x \<Rightarrow> Some x)"
  by (induction xs) simp_all

lemma lastBlock_Cons:
  "lastBlock label (b # bs) =
     (case lastBlock label bs of
        Some x \<Rightarrow> Some x
      | None \<Rightarrow> if b_Label b = label then Some b else None)"
  by (simp add: lastBlock_def find_app split: option.splits)

lemma blocksLoop_rawHeader:
  "rawHeader (snd (blocksLoop blocks m raws)) =
     (case lastBlock ''1'' blocks of None \<Rightarrow> rawHeader raws | Some b \<Rightarrow> rawBlock ''1'' (b_Content b))"
proof (induction blocks arbitrary: m raws)
  case Nil
  show ?case by (simp add: lastBlock_def)
next
  case (Cons b bs)
  show ?case by (simp add: Cons.IH lastBlock_Cons label_defs split: option.splits)
qed

lemma blocksLoop_rawAppHeader:
  "rawAppHeader (snd (blocksLoop blocks m raws)) =
     (case lastBlock ''2'' blocks of None \<Rightarrow> rawAppHeader raws | Some b \<Rightarrow> rawBlock ''2'' (b_Content b))"
proof (induction blocks arbitrary: m raws)
  case Nil
  show ?case by (simp add: lastBlock_def)
next
  case (Cons b bs)
  show ?case by (simp add: Cons.IH lastBlock_Cons label_defs split: option.splits)
qed

lemma blocksLoop_rawUsrHeader:
  "rawUsrHeader (snd (blocksLoop blocks m raws)) =
     (case lastBlock ''3'' blocks of None \<Rightarrow> rawUsrHeader raws | Some b \<Rightarrow> rawBlock ''3'' (b_Content b))"
proof (induction blocks arbitrary: m raws)
  case Nil
  show ?case by (simp add: lastBlock_def)
next
  case (Cons b bs)
  show ?case by (simp add: Cons.IH lastBlock_Cons label_defs split: option.splits)
qed

lemma blocksLoop_rawBody:
  "rawBody (snd (blocksLoop blocks m raws)) =
     (case lastBlock ''4'' blocks of None \<Rightarrow> rawBody raws | Some b \<Rightarrow> rawBlock ''4'' (b_Content b))"
proof (induction blocks arbitrary: m raws)
  case Nil
  show ?case by (simp add: lastBlock_def)
next
  case (Cons b bs)
  show ?case by (simp add: Cons.IH lastBlock_Cons label_defs split: option.splits)
qed

lemma blocksLoop_rawTrailers:
  "rawTrailers (snd (blocksLoop blocks m raws)) =
     (case lastBlock ''5'' blocks of None \<Rightarrow> rawTrailers raws | Some b \<Rightarrow> rawBlock ''5'' (b_Content b))"
proof (induction blocks arbitrary: m raws)
  case Nil
  show ?case by (simp add: lastBlock_def)
next
  case (Cons b bs)
  show ?case by (simp add: Cons.IH lastBlock_Cons label_defs split: option.splits)
qed

lemma blocksToMessage_Raw:
  "m_Raw (blocksToMessage blocks line) =
     rawOf ''1'' blocks @ rawOf ''2'' blocks @ rawOf ''3'' blocks @ rawOf ''4'' blocks
       @ rawOf ''5'' blocks"
  by (simp add: blocksToMessage_def split_beta blocksLoop_rawHeader blocksLoop_rawAppHeader
        blocksLoop_rawUsrHeader blocksLoop_rawBody blocksLoop_rawTrailers rawOf_def
      split: option.splits)

lemma lastBlock_Some:
  "lastBlock label bs = Some b \<Longrightarrow> b \<in> set bs \<and> b_Label b = label"
proof -
  assume "lastBlock label bs = Some b"
  then have f: "find (\<lambda>b. b_Label b = label) (rev bs) = Some b" by (simp add: lastBlock_def)
  then obtain i where "i < length (rev bs)" "b_Label (rev bs ! i) = label" "b = rev bs ! i"
    unfolding find_Some_iff by blast
  then show ?thesis by (metis nth_mem set_rev)
qed

lemma lastBlock_None:
  "lastBlock label bs = None \<longleftrightarrow> (\<forall>b \<in> set bs. b_Label b \<noteq> label)"
  by (auto simp: lastBlock_def find_None_iff)

lemma lastBlock_set:
  assumes "inj_on b_Label (set bs)" and "set bs' = set bs"
  shows "lastBlock label bs' = lastBlock label bs"
proof (cases "lastBlock label bs")
  case None
  then have "\<forall>b \<in> set bs. b_Label b \<noteq> label"
    by (simp add: lastBlock_None)
  then have "\<forall>b \<in> set bs'. b_Label b \<noteq> label" using assms(2) by simp
  then have "lastBlock label bs' = None" by (simp add: lastBlock_None)
  with None show ?thesis by simp
next
  case (Some b)
  then have b: "b \<in> set bs" "b_Label b = label"
    using lastBlock_Some by blast+
  then have "\<exists>x \<in> set bs'. b_Label x = label" using assms(2) by auto
  then obtain b' where b': "lastBlock label bs' = Some b'"
    by (cases "lastBlock label bs'") (auto simp: lastBlock_None)
  then have "b' \<in> set bs'" "b_Label b' = label"
    using lastBlock_Some by blast+
  then have "b' = b" using b assms by (auto dest: inj_onD)
  with Some b' show ?thesis by simp
qed

text \<open>
  Claim C3.  The raw text of the message assembled from a list of blocks is the
  reconstruction \<open>{1:...}\<close> of the block labelled 1, then those of the blocks labelled
  2, 3, 4 and 5, each one present only if a block with that label is in the list (the
  last one, should a label occur twice).  It does not depend on the order of the list:
  two lists with the same blocks, no two of them with the same label, give the same raw
  text.
\<close>

theorem blocksToMessage_raw_canonical:
  "m_Raw (blocksToMessage blocks line) =
     rawOf ''1'' blocks @ rawOf ''2'' blocks @ rawOf ''3'' blocks @ rawOf ''4'' blocks
       @ rawOf ''5'' blocks
   \<and> (inj_on b_Label (set blocks) \<and> set blocks' = set blocks \<longrightarrow>
        m_Raw (blocksToMessage blocks' line') = m_Raw (blocksToMessage blocks line))"
proof (intro conjI impI)
  show "m_Raw (blocksToMessage blocks line) =
     rawOf ''1'' blocks @ rawOf ''2'' blocks @ rawOf ''3'' blocks @ rawOf ''4'' blocks
       @ rawOf ''5'' blocks"
    by (rule blocksToMessage_Raw)
next
  assume a: "inj_on b_Label (set blocks) \<and> set blocks' = set blocks"
  then have "\<And>label. rawOf label blocks' = rawOf label blocks"
    using lastBlock_set [of blocks blocks'] by (simp add: rawOf_def)
  then show "m_Raw (blocksToMessage blocks' line') = m_Raw (blocksToMessage blocks line)"
    by (simp add: blocksToMessage_Raw)
qed

theorem blocksToMessage_raw_canonical_witness:
  "m_Raw (blocksToMessage
            [\<lparr> b_Label = ''4'', b_Content = ''-'', b_Fields = None, b_Blocks = [] \<rparr>,
             \<lparr> b_Label = ''1'', b_Content = ''F01'', b_Fields = None, b_Blocks = [] \<rparr>] 1)
     = ''{1:F01}{4:-}''
   \<and> m_Raw (blocksToMessage
            [\<lparr> b_Label = ''1'', b_Content = ''F01'', b_Fields = None, b_Blocks = [] \<rparr>,
             \<lparr> b_Label = ''4'', b_Content = ''-'', b_Fields = None, b_Blocks = [] \<rparr>] 7)
     = ''{1:F01}{4:-}''"
  using blocksToMessage_raw_canonical
          [of "[\<lparr> b_Label = ''4'', b_Content = ''-'', b_Fields = None, b_Blocks = [] \<rparr>,
                \<lparr> b_Label = ''1'', b_Content = ''F01'', b_Fields = None, b_Blocks = [] \<rparr>]" 1
              "[\<lparr> b_Label = ''1'', b_Content = ''F01'', b_Fields = None, b_Blocks = [] \<rparr>,
                \<lparr> b_Label = ''4'', b_Content = ''-'', b_Fields = None, b_Blocks = [] \<rparr>]" 7]
  by (simp add: rawOf_def lastBlock_def rawBlock_def insert_commute)






lemma addField_store:
  "b_Fields (p_currBlock p) = Some a \<Longrightarrow>
   addField p v =
     Return (p \<lparr> p_store := (p_store p)
                   (a := (p_store p a) (p_currTag p \<mapsto>
                           (case p_store p a (p_currTag p) of None \<Rightarrow> [] | Some l \<Rightarrow> l)
                             @ [TrimSpace v])),
                 p_currTag := [] \<rparr>)"
  by (auto simp: addField_def Let_def split: option.splits)














lemma spaceWidth_le: "spaceWidth s \<le> length s"
  by (cases s rule: spaceWidth.cases) auto

lemma spaceWidthRev_le: "spaceWidthRev s \<le> length s"
  by (cases s rule: spaceWidthRev.cases) auto

lemma space3_not_ascii: "space3 a b c \<Longrightarrow> \<not> asciiSpace a \<and> \<not> space2 a b"
  by (auto simp: space3_def asciiSpace_def space2_def)

lemma space2_not_ascii: "space2 a b \<Longrightarrow> \<not> asciiSpace a"
  by (auto simp: asciiSpace_def space2_def)

lemma spaceWidth_1: "asciiSpace a \<Longrightarrow> spaceWidth (a # x) = 1"
  by (cases "a # x" rule: spaceWidth.cases) auto

lemma spaceWidth_2: "\<not> asciiSpace a \<Longrightarrow> space2 a b \<Longrightarrow> spaceWidth (a # b # x) = 2"
  by (cases "a # b # x" rule: spaceWidth.cases) auto

lemma spaceWidth_3:
  "\<not> asciiSpace a \<Longrightarrow> \<not> space2 a b \<Longrightarrow> space3 a b c \<Longrightarrow> spaceWidth (a # b # c # x) = 3"
  by simp

lemma spaceWidth_cases:
  assumes "spaceWidth s \<noteq> 0"
  obtains (one) a x where "s = a # x" "asciiSpace a" "spaceWidth s = 1"
    | (two) a b x where "s = a # b # x" "\<not> asciiSpace a" "space2 a b" "spaceWidth s = 2"
    | (three) a b c x where "s = a # b # c # x" "\<not> asciiSpace a" "\<not> space2 a b" "space3 a b c"
        "spaceWidth s = 3"
  using assms by (cases s rule: spaceWidth.cases) (auto split: if_splits)

lemma spaceWidthRev_cases:
  assumes "spaceWidthRev s \<noteq> 0"
  obtains (one) c x where "s = c # x" "asciiSpace c" "spaceWidthRev s = 1"
    | (two) c b x where "s = c # b # x" "\<not> asciiSpace c" "space2 b c" "spaceWidthRev s = 2"
    | (three) c b a x where "s = c # b # a # x" "\<not> asciiSpace c" "\<not> space2 b c" "space3 a b c"
        "spaceWidthRev s = 3"
  using assms by (cases s rule: spaceWidthRev.cases) (auto split: if_splits)

text \<open>The width is decided by the bytes of the code point itself.\<close>

lemma spaceWidth_append:
  assumes "spaceWidth s \<noteq> 0"
  shows "spaceWidth (s @ y) = spaceWidth s"
  using assms
proof (cases rule: spaceWidth_cases)
  case (one a x)
  then show ?thesis by (simp add: spaceWidth_1)
next
  case (two a b x)
  then show ?thesis by (simp add: spaceWidth_2)
next
  case (three a b c x)
  then show ?thesis by simp
qed

text \<open>A code point recognised from the end is recognised from the start.\<close>

lemma spaceWidth_rev_token:
  assumes "spaceWidthRev r \<noteq> 0"
  shows "spaceWidth (rev (take (spaceWidthRev r) r) @ y) = spaceWidthRev r"
  using assms
proof (cases rule: spaceWidthRev_cases)
  case (one c x)
  then show ?thesis by (simp add: spaceWidth_1)
next
  case (two c b x)
  then show ?thesis by (simp add: spaceWidth_2 space2_not_ascii)
next
  case (three c b a x)
  then show ?thesis using space3_not_ascii [of a b c] by simp
qed

lemma TrimLeft_spaces_append: "spaces s \<Longrightarrow> TrimLeft (s @ y) = TrimLeft y"
  unfolding spaces_def
proof (induction s rule: TrimLeft.induct)
  case (1 s)
  show ?case
  proof (cases "spaceWidth s = 0")
    case True
    with "1.prems" have "s = []" by (subst (asm) TrimLeft.simps) simp
    then show ?thesis by simp
  next
    case False
    then have w: "spaceWidth (s @ y) = spaceWidth s" by (rule spaceWidth_append)
    from False "1.prems" have t: "TrimLeft (drop (spaceWidth s) s) = []"
      by (subst (asm) TrimLeft.simps) simp
    have "TrimLeft (s @ y) = TrimLeft (drop (spaceWidth s) (s @ y))"
      using False w by (subst TrimLeft.simps) simp
    also have "\<dots> = TrimLeft (drop (spaceWidth s) s @ y)"
      using spaceWidth_le [of s] by simp
    also have "\<dots> = TrimLeft y" using "1.IH" [OF False t] .
    finally show ?thesis .
  qed
qed

lemma spaces_Nil: "spaces []"
  by (simp add: spaces_def TrimLeft.simps)

lemma spaces_token:
  assumes "spaceWidth s \<noteq> 0"
  shows "spaces (take (spaceWidth s) s)"
  using assms
proof (cases rule: spaceWidth_cases)
  case (one a x)
  then show ?thesis
    unfolding spaces_def by (subst TrimLeft.simps) (simp add: TrimLeft.simps)
next
  case (two a b x)
  then show ?thesis
    unfolding spaces_def by (subst TrimLeft.simps) (simp add: TrimLeft.simps)
next
  case (three a b c x)
  then show ?thesis
    unfolding spaces_def by (subst TrimLeft.simps) (simp add: TrimLeft.simps)
qed

lemma spaces_append: "spaces a \<Longrightarrow> spaces b \<Longrightarrow> spaces (a @ b)"
  using TrimLeft_spaces_append [of a b] by (simp add: spaces_def)

lemma TrimLeft_shape:
  "\<exists>k. TrimLeft s = drop k s \<and> spaces (take k s) \<and> spaceWidth (TrimLeft s) = 0"
proof (induction s rule: TrimLeft.induct)
  case (1 s)
  show ?case
  proof (cases "spaceWidth s = 0")
    case True
    then have "TrimLeft s = s" by (subst TrimLeft.simps) simp
    then have "TrimLeft s = drop 0 s \<and> spaces (take 0 s) \<and> spaceWidth (TrimLeft s) = 0"
      using True by (simp add: spaces_Nil)
    then show ?thesis by blast
  next
    case False
    let ?w = "spaceWidth s"
    from "1.IH" [OF False] obtain k where
      k: "TrimLeft (drop ?w s) = drop k (drop ?w s)" "spaces (take k (drop ?w s))"
         "spaceWidth (TrimLeft (drop ?w s)) = 0" by blast
    have t: "TrimLeft s = TrimLeft (drop ?w s)" using False by (subst TrimLeft.simps) simp
    have "take (?w + k) s = take ?w s @ take k (drop ?w s)" by (simp add: take_add)
    then have "spaces (take (?w + k) s)"
      using spaces_append [OF spaces_token [OF False] k(2)] by simp
    moreover have "TrimLeft s = drop (?w + k) s" using t k(1) by (simp add: add.commute)
    ultimately have "TrimLeft s = drop (?w + k) s \<and> spaces (take (?w + k) s)
        \<and> spaceWidth (TrimLeft s) = 0" using t k(3) by simp
    then show ?thesis by blast
  qed
qed

lemma TrimRightRev_shape:
  "\<exists>k. TrimRightRev r = drop k r \<and> spaces (rev (take k r)) \<and> spaceWidthRev (TrimRightRev r) = 0"
proof (induction r rule: TrimRightRev.induct)
  case (1 r)
  show ?case
  proof (cases "spaceWidthRev r = 0")
    case True
    then have "TrimRightRev r = r" by (subst TrimRightRev.simps) simp
    then have "TrimRightRev r = drop 0 r \<and> spaces (rev (take 0 r))
        \<and> spaceWidthRev (TrimRightRev r) = 0"
      using True by (simp add: spaces_Nil)
    then show ?thesis by blast
  next
    case False
    let ?w = "spaceWidthRev r"
    from "1.IH" [OF False] obtain k where
      k: "TrimRightRev (drop ?w r) = drop k (drop ?w r)" "spaces (rev (take k (drop ?w r)))"
         "spaceWidthRev (TrimRightRev (drop ?w r)) = 0" by blast
    have t: "TrimRightRev r = TrimRightRev (drop ?w r)"
      using False by (subst TrimRightRev.simps) simp
    have tok: "spaces (rev (take ?w r))"
    proof -
      have "spaceWidth (rev (take ?w r) @ []) = ?w" using False by (rule spaceWidth_rev_token)
      moreover have "length (rev (take ?w r)) = ?w" using spaceWidthRev_le [of r] by simp
      ultimately show ?thesis
        using False spaces_Nil unfolding spaces_def by (subst TrimLeft.simps) simp
    qed
    have "rev (take (?w + k) r) = rev (take k (drop ?w r)) @ rev (take ?w r)"
      by (simp add: take_add)
    then have "spaces (rev (take (?w + k) r))"
      using spaces_append [OF k(2) tok] by simp
    moreover have "TrimRightRev r = drop (?w + k) r" using t k(1) by (simp add: add.commute)
    ultimately have "TrimRightRev r = drop (?w + k) r \<and> spaces (rev (take (?w + k) r))
        \<and> spaceWidthRev (TrimRightRev r) = 0" using t k(3) by simp
    then show ?thesis by blast
  qed
qed

lemma TrimSpace_shape:
  "\<exists>pre suf. s = pre @ TrimSpace s @ suf \<and> spaces pre \<and> spaces suf
      \<and> spaceWidth (TrimSpace s) = 0 \<and> spaceWidthRev (rev (TrimSpace s)) = 0"
proof -
  obtain k where k: "TrimLeft s = drop k s" "spaces (take k s)" "spaceWidth (TrimLeft s) = 0"
    using TrimLeft_shape by blast
  let ?u = "TrimLeft s"
  obtain j where j: "TrimRightRev (rev ?u) = drop j (rev ?u)" "spaces (rev (take j (rev ?u)))"
    "spaceWidthRev (TrimRightRev (rev ?u)) = 0"
    using TrimRightRev_shape by blast
  have ts: "TrimSpace s = take (length ?u - j) ?u"
    using j(1) by (simp add: TrimSpace_def rev_drop)
  have suf: "rev (take j (rev ?u)) = drop (length ?u - j) ?u"
    by (simp add: rev_take)
  have s: "s = take k s @ TrimSpace s @ drop (length ?u - j) ?u"
    using k(1) ts by (metis append_take_drop_id)
  have w0: "spaceWidth (TrimSpace s) = 0"
  proof (rule ccontr)
    assume n: "spaceWidth (TrimSpace s) \<noteq> 0"
    have "?u = TrimSpace s @ drop (length ?u - j) ?u" using ts by simp
    then have "spaceWidth ?u = spaceWidth (TrimSpace s)"
      using spaceWidth_append [OF n, of "drop (length ?u - j) ?u"] by simp
    with n k(3) show False by simp
  qed
  have r0: "spaceWidthRev (rev (TrimSpace s)) = 0"
    using j(3) by (simp add: TrimSpace_def)
  from s k(2) j(2) suf w0 r0 show ?thesis by metis
qed

text \<open>
  Claim C7, amended.  When the parser receives the text of a body entry, the value it
  appends to the list of the current tag is that text without its leading and its
  trailing white space: the text is the stored value with a run of white space before it
  and one after it, and the stored value neither starts nor ends with white space.
  Everything between is kept as it is, white space included.
\<close>

theorem field_value_trimmed:
  assumes "it_typ i = itemFieldContent" and "b_Fields (p_currBlock p) = Some a"
  shows "\<exists>p'. runLoop s p (i # items) = runLoop s p' items
           \<and> p_store p' a (p_currTag p) =
               Some ((case p_store p a (p_currTag p) of None \<Rightarrow> [] | Some l \<Rightarrow> l)
                       @ [TrimSpace (it_val i)])
           \<and> (\<exists>pre suf. it_val i = pre @ TrimSpace (it_val i) @ suf \<and> spaces pre \<and> spaces suf)
           \<and> spaceWidth (TrimSpace (it_val i)) = 0
           \<and> spaceWidthRev (rev (TrimSpace (it_val i))) = 0"
proof -
  let ?p' = "p \<lparr> p_store := (p_store p)
                   (a := (p_store p a) (p_currTag p \<mapsto>
                           (case p_store p a (p_currTag p) of None \<Rightarrow> [] | Some l \<Rightarrow> l)
                             @ [TrimSpace (it_val i)])),
                 p_currTag := [] \<rparr>"
  have "runLoop s p (i # items) = runLoop s ?p' items"
    using assms(1) addField_store [OF assms(2), of "it_val i"] by simp
  moreover have "p_store ?p' a (p_currTag p) =
               Some ((case p_store p a (p_currTag p) of None \<Rightarrow> [] | Some l \<Rightarrow> l)
                       @ [TrimSpace (it_val i)])" by simp
  ultimately show ?thesis
    using TrimSpace_shape [of "it_val i"] by blast
qed

theorem field_value_trimmed_witness:
  "\<exists>p'. runLoop False
       \<lparr> p_store = (\<lambda>a. Map.empty), p_next = 1, p_blocks = [], p_currLine = 1,
         p_currBlock = \<lparr> b_Label = ''4'', b_Content = [], b_Fields = Some 0, b_Blocks = [] \<rparr>,
         p_currSubBlock = \<lparr> sb_Label = [], sb_Content = [] \<rparr>,
         p_currTag = ''86'', p_messages = [], p_errors = [] \<rparr>
       [\<lparr> it_typ = itemFieldContent, it_val = ''  a  b '' @ [CHR 0x0A], it_line = 1 \<rparr>]
      = Return p'
     \<and> p_store p' 0 ''86'' = Some [''a  b'']"
proof -
  let ?i = "\<lparr> it_typ = itemFieldContent, it_val = ''  a  b '' @ [CHR 0x0A], it_line = 1 \<rparr>"
  let ?p = "\<lparr> p_store = (\<lambda>a. Map.empty), p_next = 1, p_blocks = [], p_currLine = 1,
         p_currBlock = \<lparr> b_Label = ''4'', b_Content = [], b_Fields = Some 0, b_Blocks = [] \<rparr>,
         p_currSubBlock = \<lparr> sb_Label = [], sb_Content = [] \<rparr>,
         p_currTag = ''86'', p_messages = [], p_errors = [] \<rparr>"
  have t: "TrimSpace (it_val ?i) = ''a  b''"
    by (simp add: TrimSpace_def TrimLeft.simps TrimRightRev.simps asciiSpace_def space2_def
          space3_def)
  have h1: "it_typ ?i = itemFieldContent" by simp
  have h2: "b_Fields (p_currBlock ?p) = Some 0" by simp
  from field_value_trimmed [OF h1 h2, of False "[]"] obtain p' where
    r: "runLoop False ?p (?i # []) = runLoop False p' []"
       "p_store p' 0 (p_currTag ?p) =
          Some ((case p_store ?p 0 (p_currTag ?p) of None \<Rightarrow> [] | Some l \<Rightarrow> l)
                  @ [TrimSpace (it_val ?i)])"
    by blast
  from r(1) have a: "runLoop False ?p [?i] = Return p'" by (simp only: runLoop.simps(1))
  from r(2) have b: "p_store p' 0 ''86'' = Some [''a  b'']" by (simp only: t) simp
  from a b show ?thesis by blast
qed

text \<open>
  Claim C7 as it is stated fails: more than the trailing line feed is removed.  These are
  the items of the text \<open>{1:F01}{4:\<close>, line feed, \<open>:20: a b \<close>, line feed, \<open>-}\<close>;
  the value stored under tag 20 has lost the space before \<open>a\<close> and the space after
  \<open>b\<close> as well.
\<close>

theorem field_value_trimmed_counterexample:
  "lastBody (run False
       [\<lparr> it_typ = itemIgnore, it_val = [], it_line = 1 \<rparr>,
        \<lparr> it_typ = itemBlockLeftMeta, it_val = ''{'', it_line = 1 \<rparr>,
        \<lparr> it_typ = itemBlockLabel, it_val = ''1'', it_line = 1 \<rparr>,
        \<lparr> it_typ = itemBlockLabelMeta, it_val = '':'', it_line = 1 \<rparr>,
        \<lparr> it_typ = itemBlockContent, it_val = ''F01'', it_line = 1 \<rparr>,
        \<lparr> it_typ = itemBlockRightMeta, it_val = ''}'', it_line = 1 \<rparr>,
        \<lparr> it_typ = itemIgnore, it_val = [], it_line = 1 \<rparr>,
        \<lparr> it_typ = itemBlockLeftMeta, it_val = ''{'', it_line = 1 \<rparr>,
        \<lparr> it_typ = itemBlockLabel, it_val = ''4'', it_line = 1 \<rparr>,
        \<lparr> it_typ = itemBlockLabelMeta, it_val = '':'', it_line = 1 \<rparr>,
        \<lparr> it_typ = itemBlockContent, it_val = [CHR 0x0A], it_line = 2 \<rparr>,
        \<lparr> it_typ = itemTagLeftMeta, it_val = '':'', it_line = 2 \<rparr>,
        \<lparr> it_typ = itemTagContent, it_val = ''20'', it_line = 2 \<rparr>,
        \<lparr> it_typ = itemTagRightMeta, it_val = '':'', it_line = 2 \<rparr>,
        \<lparr> it_typ = itemFieldContent, it_val = '' a b '' @ [CHR 0x0A], it_line = 3 \<rparr>,
        \<lparr> it_typ = itemBlockContent, it_val = ''-'', it_line = 3 \<rparr>,
        \<lparr> it_typ = itemBlockRightMeta, it_val = ''}'', it_line = 3 \<rparr>,
        \<lparr> it_typ = itemIgnore, it_val = [], it_line = 3 \<rparr>,
        \<lparr> it_typ = itemEOF, it_val = [], it_line = 3 \<rparr>]) ''20''
     = Some [''a b'']
   \<and> ''a b'' \<noteq> '' a b ''"
  by (simp add: lastBody_def run_def newBlock_def sendMessage_def addField_def Body_def
        blocksToMessage_def label_defs zeroBlock_def rawBlock_def
        TrimSpace_def TrimLeft.simps TrimRightRev.simps asciiSpace_def space2_def space3_def)

end
